theory Spec2Isabelle
  imports Complex_Main "HOL-Library.Log_Nat"
begin

section \<open>Shell-style name patterns\<close>

text \<open>
  The pattern helpers of \<^verbatim>\<open>test_utils.py\<close> call \<^verbatim>\<open>fnmatch.fnmatch\<close> of the Python
  standard library. The model follows CPython's \<^verbatim>\<open>fnmatch.translate\<close>: the pattern is
  scanned left to right into items (\<^verbatim>\<open>*\<close>, \<^verbatim>\<open>?\<close>, a bracket expression, a literal
  character), a \<^verbatim>\<open>[\<close> without a closing \<^verbatim>\<open>]\<close> is a literal, a bracket expression that
  contains hyphens is cut into chunks whose borders are ranges, empty ranges are removed,
  and the item list is matched against the whole name. \<^verbatim>\<open>os.path.normcase\<close> is the
  identity (POSIX). Strings are lists of 8-bit characters.
\<close>

text \<open>
  The items a pattern is translated into: \<^verbatim>\<open>*\<close>, \<^verbatim>\<open>?\<close>, the bracket expression that
  matches nothing, a literal character, and a bracket expression, negated or not, kept as
  its chunks (the last character of a chunk and the first of the next are the ends of a
  range; every other character stands for itself).
\<close>

datatype glob = Star | AnyChar | Never | Lit char | CharClass bool "string list"

text \<open>
  After a \<^verbatim>\<open>[\<close>: the scan for the closing bracket. A leading \<^verbatim>\<open>!\<close> and then a leading
  \<^verbatim>\<open>]\<close> are stepped over; the result is the position of the next \<^verbatim>\<open>]\<close>, if any.
\<close>

primrec find_char :: "char \<Rightarrow> string \<Rightarrow> nat option" where
  "find_char c [] = None"
| "find_char c (x # xs) = (if x = c then Some 0 else map_option Suc (find_char c xs))"

definition bracket_end :: "string \<Rightarrow> nat option" where
  "bracket_end pat =
     (let j0 = (case pat of x # _ \<Rightarrow> if x = CHR ''!'' then 1 else 0 | [] \<Rightarrow> 0);
          j1 = (case drop j0 pat of x # _ \<Rightarrow> if x = CHR '']'' then j0 + 1 else j0 | [] \<Rightarrow> j0)
      in map_option (\<lambda>k. j1 + k) (find_char CHR '']'' (drop j1 pat)))"

text \<open>
  The chunks of a bracket expression with hyphens: a hyphen is a range operator unless it
  is the first character (the second after \<^verbatim>\<open>!\<close>) or one of the two characters after
  the last operator; \<^verbatim>\<open>skip\<close> counts those positions. A hyphen at the very end is put back
  on the last chunk, and from right to left a range whose ends are out of order is
  removed with both its ends.
\<close>

fun split_chunks :: "nat \<Rightarrow> string \<Rightarrow> string \<Rightarrow> string list" where
  "split_chunks skip cur [] = [cur]"
| "split_chunks skip cur (c # cs) =
     (if c = CHR ''-'' \<and> skip = 0 then cur # split_chunks 2 [] cs
      else split_chunks (skip - 1) (cur @ [c]) cs)"

definition close_chunks :: "string list \<Rightarrow> string list" where
  "close_chunks chunks =
     (if chunks \<noteq> [] \<and> last chunks = [] \<and> butlast chunks \<noteq> []
      then butlast (butlast chunks) @ [last (butlast chunks) @ ''-'']
      else chunks)"

fun remove_empty_ranges :: "string list \<Rightarrow> string list" where
  "remove_empty_ranges [] = []"
| "remove_empty_ranges [a] = [a]"
| "remove_empty_ranges (a # rest) =
     (case remove_empty_ranges rest of
        [] \<Rightarrow> [a]
      | b # rest' \<Rightarrow>
          if a \<noteq> [] \<and> b \<noteq> [] \<and> (of_char (last a) :: nat) > of_char (hd b)
          then (butlast a @ tl b) # rest'
          else a # b # rest')"

text \<open>
  The item of a bracket expression \<^verbatim>\<open>[stuff]\<close>: nothing left matches nothing, a lone
  \<^verbatim>\<open>!\<close> matches any character, a leading \<^verbatim>\<open>!\<close> negates.
\<close>

definition bracket_item :: "string \<Rightarrow> glob" where
  "bracket_item stuff =
     (let chunks = (if CHR ''-'' \<notin> set stuff then [stuff]
                    else remove_empty_ranges (close_chunks
                           (split_chunks (if hd stuff = CHR ''!'' then 2 else 1) [] stuff)))
      in if concat chunks = [] then Never
         else if chunks = [''!''] then AnyChar
         else if hd chunks \<noteq> [] \<and> hd (hd chunks) = CHR ''!''
              then CharClass True (tl (hd chunks) # tl chunks)
         else CharClass False chunks)"

text \<open>The scan of the pattern; consecutive \<^verbatim>\<open>*\<close> are one.\<close>

definition star_cons :: "glob list \<Rightarrow> glob list" where
  "star_cons res = (case res of Star # _ \<Rightarrow> res | _ \<Rightarrow> Star # res)"

fun translate :: "string \<Rightarrow> glob list" where
  "translate [] = []"
| "translate (c # pat) =
     (if c = CHR ''*'' then star_cons (translate pat)
      else if c = CHR ''?'' then AnyChar # translate pat
      else if c = CHR ''['' then
        (case bracket_end pat of
           None \<Rightarrow> Lit c # translate pat
         | Some j \<Rightarrow> bracket_item (take j pat) # translate (drop (Suc j) pat))
      else Lit c # translate pat)"

text \<open>
  Matching: the translated pattern must match the whole name (the regular expression is
  anchored at both ends, and a dot matches every character).
\<close>

fun class_member :: "string list \<Rightarrow> char \<Rightarrow> bool" where
  "class_member [] c = False"
| "class_member [a] c = (c \<in> set a)"
| "class_member (a # b # rest) c =
     (c \<in> set (butlast a)
      \<or> (a \<noteq> [] \<and> b \<noteq> [] \<and> (of_char (last a) :: nat) \<le> of_char c \<and> (of_char c :: nat) \<le> of_char (hd b))
      \<or> class_member (tl b # rest) c)"

fun glob_match :: "glob list \<Rightarrow> string \<Rightarrow> bool" where
  "glob_match [] s = (s = [])"
| "glob_match (Star # r) [] = glob_match r []"
| "glob_match (Star # r) (x # s) = (glob_match r (x # s) \<or> glob_match (Star # r) s)"
| "glob_match (AnyChar # r) [] = False"
| "glob_match (AnyChar # r) (x # s) = glob_match r s"
| "glob_match (Never # r) s = False"
| "glob_match (Lit c # r) [] = False"
| "glob_match (Lit c # r) (x # s) = (x = c \<and> glob_match r s)"
| "glob_match (CharClass neg chunks # r) [] = False"
| "glob_match (CharClass neg chunks # r) (x # s) = ((class_member chunks x \<noteq> neg) \<and> glob_match r s)"

definition fnmatch :: "string \<Rightarrow> string \<Rightarrow> bool" where
  "fnmatch name pat = glob_match (translate pat) name"

text \<open>
  \<^verbatim>\<open>items_matching_at_least_one_pattern\<close>, \<^verbatim>\<open>names_in_blacklist\<close>,
  \<^verbatim>\<open>missing_names_in_whitelist_entries\<close>, \<^verbatim>\<open>missing_whitelist_entries_in_names\<close> and
  \<^verbatim>\<open>count_matches_in_list\<close>: each loop appends to its result list, a list
  comprehension used as a condition is true when it is not empty.
\<close>

definition items_matching_at_least_one_pattern :: "string list \<Rightarrow> string list \<Rightarrow> string list" where
  "items_matching_at_least_one_pattern items patterns =
     (let patterns' = map (\<lambda>x. x @ ''*'') patterns
      in foldl (\<lambda>matches item.
                  if [p \<leftarrow> patterns'. fnmatch item p] \<noteq> [] then matches @ [item] else matches)
           [] items)"

definition names_in_blacklist :: "string list \<Rightarrow> string list \<Rightarrow> string list" where
  "names_in_blacklist names blacklist = items_matching_at_least_one_pattern names blacklist"

definition missing_names_in_whitelist_entries :: "string list \<Rightarrow> string list \<Rightarrow> string list" where
  "missing_names_in_whitelist_entries names whitelist =
     (let wl = map (\<lambda>x. x @ ''*'') whitelist
      in foldl (\<lambda>fail_list name.
                  if name \<noteq> [] \<and> [x \<leftarrow> wl. fnmatch name x] = [] then fail_list @ [name]
                  else fail_list)
           [] names)"

definition missing_whitelist_entries_in_names :: "string list \<Rightarrow> string list \<Rightarrow> string list" where
  "missing_whitelist_entries_in_names names whitelist =
     (let wl = map (\<lambda>x. x @ ''*'') whitelist
      in foldl (\<lambda>fail_list x.
                  if [name \<leftarrow> names. fnmatch name x] = [] then fail_list @ [x] else fail_list)
           [] wl)"

definition count_matches_in_list :: "string list \<Rightarrow> string \<Rightarrow> nat" where
  "count_matches_in_list input_list to_match = length [s \<leftarrow> input_list. fnmatch s to_match]"

text \<open>A pattern without \<^verbatim>\<open>*\<close>, \<^verbatim>\<open>?\<close> and \<^verbatim>\<open>[\<close> has no metacharacter.\<close>

definition plain :: "string \<Rightarrow> bool" where
  "plain p = (CHR ''*'' \<notin> set p \<and> CHR ''?'' \<notin> set p \<and> CHR ''['' \<notin> set p)"

section \<open>Python values\<close>

text \<open>
  Modelled from the spec: the trace event message \<^verbatim>\<open>trace_pb2.IpuTraceEvent\<close>, whose
  declaration is generated code that is not among the sources. The spec names its six
  event kinds and the payload each kind carries; the field names are those
  \<^verbatim>\<open>parse_events\<close> reads. As in a protocol
  buffer message every payload field is present on every event and is empty by default;
  a field is named by its path in the message (\<^verbatim>\<open>evt.compile_end.tensor_map\<close>).
\<close>

datatype event_type =
  COMPILE_BEGIN | COMPILE_END | HOST_TO_DEVICE_TRANSFER | DEVICE_TO_HOST_TRANSFER
  | LOAD_ENGINE | EXECUTE

record IpuTraceEvent =
  type :: event_type
  compile_end_compilation_report :: string
  compile_end_tensor_map :: string
  compile_end_instruction_info :: string
  data_transfer_data_transfer :: string
  execute_execution_report :: string

text \<open>
  The exceptions the helpers can raise. \<open>AssertEqualError first second msg\<close> is the
  failure of \<^verbatim>\<open>test.assertEqual(first, second, msg)\<close>, which reports both values and
  the message; \<open>AssertionError\<close> is a failed \<^verbatim>\<open>assert\<close> statement; \<open>DecodeError\<close> is
  raised by the protocol buffer parser.
\<close>

datatype pykey = KStr string | KInt int | KEvt event_type

datatype py_error =
  AssertionError
  | AssertEqualError int int string
  | UnicodeDecodeError
  | ValueError
  | KeyError pykey
  | IndexError
  | TypeError
  | AttributeError
  | ZeroDivisionError
  | OverflowError
  | DecodeError

text \<open>
  What \<^verbatim>\<open>json.loads\<close> returns. Numbers are the integers of the report format; JSON
  reals are not part of the modelled input. An object keeps its members in order, with
  one member for each key.
\<close>

datatype json =
  JNull | JBool bool | JInt int | JString string | JArray "json list"
  | JObject "(string \<times> json) list"

text \<open>
  Subscription \<^verbatim>\<open>v[k]\<close> with a string key and with an integer index (a negative index
  counts from the end).
\<close>

definition getitem_str :: "json \<Rightarrow> string \<Rightarrow> py_error + json" where
  "getitem_str v k =
     (case v of
        JObject kvs \<Rightarrow> (case map_of kvs k of None \<Rightarrow> Inl (KeyError (KStr k)) | Some x \<Rightarrow> Inr x)
      | _ \<Rightarrow> Inl TypeError)"

definition list_getitem :: "'a list \<Rightarrow> int \<Rightarrow> py_error + 'a" where
  "list_getitem xs i =
     (let j = (if i < 0 then i + int (length xs) else i)
      in if 0 \<le> j \<and> j < int (length xs) then Inr (xs ! nat j) else Inl IndexError)"

definition getitem_int :: "json \<Rightarrow> int \<Rightarrow> py_error + json" where
  "getitem_int v i =
     (case v of
        JArray xs \<Rightarrow> list_getitem xs i
      | JString s \<Rightarrow> (case list_getitem s i of Inl e \<Rightarrow> Inl e | Inr c \<Rightarrow> Inr (JString [c]))
      | JObject kvs \<Rightarrow> Inl (KeyError (KInt i))
      | _ \<Rightarrow> Inl TypeError)"

text \<open>Iteration \<^verbatim>\<open>for x in v\<close>, \<^verbatim>\<open>len(v)\<close>, \<^verbatim>\<open>v.items()\<close> and truth value.\<close>

definition py_iter :: "json \<Rightarrow> py_error + json list" where
  "py_iter v =
     (case v of
        JArray xs \<Rightarrow> Inr xs
      | JString s \<Rightarrow> Inr (map (\<lambda>c. JString [c]) s)
      | JObject kvs \<Rightarrow> Inr (map (\<lambda>kv. JString (fst kv)) kvs)
      | _ \<Rightarrow> Inl TypeError)"

definition py_len :: "json \<Rightarrow> py_error + nat" where
  "py_len v =
     (case v of
        JArray xs \<Rightarrow> Inr (length xs)
      | JString s \<Rightarrow> Inr (length s)
      | JObject kvs \<Rightarrow> Inr (length kvs)
      | _ \<Rightarrow> Inl TypeError)"

definition py_items :: "json \<Rightarrow> py_error + (string \<times> json) list" where
  "py_items v = (case v of JObject kvs \<Rightarrow> Inr kvs | _ \<Rightarrow> Inl AttributeError)"

definition py_bool :: "json \<Rightarrow> bool" where
  "py_bool v =
     (case v of
        JNull \<Rightarrow> False
      | JBool b \<Rightarrow> b
      | JInt n \<Rightarrow> n \<noteq> 0
      | JString s \<Rightarrow> s \<noteq> []
      | JArray xs \<Rightarrow> xs \<noteq> []
      | JObject kvs \<Rightarrow> kvs \<noteq> [])"

text \<open>
  The integer a value stands for in arithmetic: \<^verbatim>\<open>bool\<close> is a subclass of
  \<^verbatim>\<open>int\<close>; any other value is a \<^verbatim>\<open>TypeError\<close>.
\<close>

definition as_int :: "json \<Rightarrow> py_error + int" where
  "as_int v =
     (case v of
        JInt n \<Rightarrow> Inr n
      | JBool b \<Rightarrow> Inr (if b then 1 else 0)
      | _ \<Rightarrow> Inl TypeError)"

text \<open>Sequencing of computations that may raise.\<close>

definition bind :: "py_error + 'a \<Rightarrow> ('a \<Rightarrow> py_error + 'b) \<Rightarrow> py_error + 'b" where
  "bind m f = (case m of Inl e \<Rightarrow> Inl e | Inr x \<Rightarrow> f x)"

fun mapM :: "('a \<Rightarrow> py_error + 'b) \<Rightarrow> 'a list \<Rightarrow> py_error + 'b list" where
  "mapM f [] = Inr []"
| "mapM f (x # xs) = bind (f x) (\<lambda>y. bind (mapM f xs) (\<lambda>ys. Inr (y # ys)))"


section \<open>Floating point\<close>

text \<open>
  The module imports \<^verbatim>\<open>division\<close> from \<^verbatim>\<open>__future__\<close>, so \<^verbatim>\<open>/\<close> is true division and
  yields a \<^verbatim>\<open>float\<close>, an IEEE 754 binary64 number. A finite float is the rational it
  denotes; the two infinities and not-a-number are values of their own. The sign of zero
  is not kept: nothing below tells the two zeros apart.
\<close>

datatype pyfloat = Finite rat | PInf | NInf | NaN

text \<open>Rounding to the nearest integer, a tie going to the even one.\<close>

definition round_half_even :: "rat \<Rightarrow> int" where
  "round_half_even x =
     (let f = \<lfloor>x\<rfloor>; d = x - of_int f
      in if d < 1 / 2 then f
         else if 1 / 2 < d then f + 1
         else if even f then f else f + 1)"

text \<open>The exponent \<open>e\<close> with \<open>2 ^ e \<le> x < 2 ^ (e + 1)\<close>, for a positive \<open>x\<close>.\<close>

definition ilog2 :: "rat \<Rightarrow> int" where
  "ilog2 x =
     (let e0 = bitlen (fst (quotient_of x)) - bitlen (snd (quotient_of x))
      in if 2 powi e0 \<le> x then e0 else e0 - 1)"

text \<open>
  Rounding a rational to binary64: 53 significant bits, the least exponent \<open>-1022\<close>
  (below it the spacing stays \<open>2 ^ -1074\<close>), and overflow to an infinity when the
  rounded magnitude reaches \<open>2 ^ 1024\<close>.
\<close>

definition fl64 :: "rat \<Rightarrow> pyfloat" where
  "fl64 x =
     (if x = 0 then Finite 0
      else
        let a = \<bar>x\<bar>;
            e = max (ilog2 a) (- 1022);
            ulp = 2 powi (e - 52);
            r = of_int (round_half_even (a / ulp)) * ulp
        in if 2 powi 1024 \<le> r then (if x < 0 then NInf else PInf)
           else Finite (if x < 0 then - r else r))"

text \<open>
  A Python number as the second operand of a division: an \<^verbatim>\<open>int\<close> or a \<^verbatim>\<open>float\<close>.
\<close>

datatype pynum = PInt int | PFloat pyfloat

text \<open>\<^verbatim>\<open>float(n)\<close> of an integer: correctly rounded, \<^verbatim>\<open>OverflowError\<close> out of range.\<close>

definition float_of_int :: "int \<Rightarrow> py_error + rat" where
  "float_of_int n = (case fl64 (of_int n) of Finite r \<Rightarrow> Inr r | _ \<Rightarrow> Inl OverflowError)"

text \<open>
  \<^verbatim>\<open>a / b\<close> for an integer \<open>a\<close>. With an integer \<open>b\<close> the quotient is rounded once
  and an overflow raises; with a float \<open>b\<close> the integer is converted first and the
  division is the IEEE one, which overflows to an infinity.
\<close>

definition int_truediv :: "int \<Rightarrow> pynum \<Rightarrow> py_error + pyfloat" where
  "int_truediv a b =
     (case b of
        PInt n \<Rightarrow>
          if n = 0 then Inl ZeroDivisionError
          else (case fl64 (of_int a / of_int n) of
                  Finite r \<Rightarrow> Inr (Finite r)
                | _ \<Rightarrow> Inl OverflowError)
      | PFloat y \<Rightarrow>
          bind (float_of_int a) (\<lambda>x.
            case y of
              Finite d \<Rightarrow> if d = 0 then Inl ZeroDivisionError else Inr (fl64 (x / d))
            | NaN \<Rightarrow> Inr NaN
            | _ \<Rightarrow> Inr (Finite 0)))"

text \<open>\<^verbatim>\<open>a * y\<close> for an integer \<open>a\<close> and a float \<open>y\<close>.\<close>

definition int_mul_float :: "int \<Rightarrow> pyfloat \<Rightarrow> py_error + pyfloat" where
  "int_mul_float a y =
     bind (float_of_int a) (\<lambda>x.
       case y of
         Finite d \<Rightarrow> Inr (fl64 (x * d))
       | PInf \<Rightarrow> Inr (if x = 0 then NaN else if x < 0 then NInf else PInf)
       | NInf \<Rightarrow> Inr (if x = 0 then NaN else if x < 0 then PInf else NInf)
       | NaN \<Rightarrow> Inr NaN)"

text \<open>
  \<^verbatim>\<open>int(x)\<close> of a float truncates towards zero; an infinity raises \<open>OverflowError\<close>,
  not-a-number \<open>ValueError\<close>.
\<close>

definition py_int :: "pyfloat \<Rightarrow> py_error + int" where
  "py_int x =
     (case x of
        Finite r \<Rightarrow> Inr (if 0 \<le> r then \<lfloor>r\<rfloor> else \<lceil>r\<rceil>)
      | NaN \<Rightarrow> Inl ValueError
      | _ \<Rightarrow> Inl OverflowError)"


section \<open>TensorMap\<close>

text \<open>
  \<^verbatim>\<open>TensorMap.Tile\<close> and \<^verbatim>\<open>TensorMap.Tensor\<close> keep the decoded JSON values as they are
  (the constructor checks nothing but the length of a tile pair);
  \<^verbatim>\<open>has_constant\<close> and \<^verbatim>\<open>has_aliases\<close> are truth values.
\<close>

record Tile =
  tile :: json
  tile_num_elements :: json

record Tensor =
  inst :: json
  index :: json
  shape :: json
  dtype :: json
  has_constant :: bool
  has_aliases :: bool
  num_elements :: json
  tiles :: "Tile list"

record TensorMap =
  num_tiles_per_ipu :: pynum
  mappings :: "(string \<times> Tensor list) list"

definition Tile_init :: "json \<Rightarrow> py_error + Tile" where
  "Tile_init js_tile =
     bind (py_len js_tile) (\<lambda>n.
       if n \<noteq> 2 then Inl AssertionError
       else bind (getitem_int js_tile 0) (\<lambda>t.
            bind (getitem_int js_tile 1) (\<lambda>k.
            Inr \<lparr>tile = t, tile_num_elements = k\<rparr>)))"

definition Tensor_init :: "json \<Rightarrow> py_error + Tensor" where
  "Tensor_init js_tensor =
     bind (getitem_int js_tensor 7) (\<lambda>js_tiles.
     bind (py_iter js_tiles) (\<lambda>ts.
     bind (mapM Tile_init ts) (\<lambda>tiles'.
     bind (getitem_int js_tensor 0) (\<lambda>v0.
     bind (getitem_int js_tensor 1) (\<lambda>v1.
     bind (getitem_int js_tensor 2) (\<lambda>v2.
     bind (getitem_int js_tensor 3) (\<lambda>v3.
     bind (getitem_int js_tensor 4) (\<lambda>v4.
     bind (getitem_int js_tensor 5) (\<lambda>v5.
     bind (getitem_int js_tensor 6) (\<lambda>v6.
     Inr \<lparr>inst = v0, index = v1, shape = v2, dtype = v3,
          has_constant = py_bool v4, has_aliases = py_bool v5,
          num_elements = v6, tiles = tiles'\<rparr>))))))))))"

definition TensorMap_init :: "json \<Rightarrow> pynum \<Rightarrow> py_error + TensorMap" where
  "TensorMap_init tensor_map' n =
     bind (getitem_str tensor_map' ''mappings'') (\<lambda>m.
     bind (py_items m) (\<lambda>kvs.
     bind (mapM (\<lambda>(comp, js_tensors).
                   bind (py_iter js_tensors) (\<lambda>jts.
                   bind (mapM Tensor_init jts) (\<lambda>tensors.
                   Inr (comp, tensors))))
             kvs) (\<lambda>ms.
     Inr \<lparr>num_tiles_per_ipu = n, mappings = ms\<rparr>)))"

text \<open>
  A Python set of decoded scalars, kept as the list of its members in the order they were
  added (the order in which Python iterates a set is its own; here it only decides which
  of several failing members raises first). Lists and dictionaries cannot be members;
  \<^verbatim>\<open>True\<close> and \<^verbatim>\<open>1\<close> are the same member, as are \<^verbatim>\<open>False\<close> and \<^verbatim>\<open>0\<close>.
\<close>

definition py_hashable :: "json \<Rightarrow> bool" where
  "py_hashable v = (case v of JArray _ \<Rightarrow> False | JObject _ \<Rightarrow> False | _ \<Rightarrow> True)"

definition py_eq :: "json \<Rightarrow> json \<Rightarrow> bool" where
  "py_eq a b =
     (case (as_int a, as_int b) of
        (Inr x, Inr y) \<Rightarrow> x = y
      | _ \<Rightarrow> a = b)"

definition set_add :: "json list \<Rightarrow> json \<Rightarrow> py_error + json list" where
  "set_add ids v =
     (if \<not> py_hashable v then Inl TypeError
      else if list_ex (py_eq v) ids then Inr ids
      else Inr (ids @ [v]))"

fun set_update :: "json list \<Rightarrow> json list \<Rightarrow> py_error + json list" where
  "set_update ids [] = Inr ids"
| "set_update ids (v # vs) = bind (set_add ids v) (\<lambda>ids'. set_update ids' vs)"

definition Tensor_tile_ids :: "Tensor \<Rightarrow> py_error + json list" where
  "Tensor_tile_ids t = set_update [] (map tile (tiles t))"

text \<open>
  The argument of \<^verbatim>\<open>tile_ids\<close> and \<^verbatim>\<open>ipu_ids\<close>: nothing, one computation name, or a
  list of names. An empty name is false and selects every computation, as nothing does.
\<close>

datatype computation = NoComputation | Name string | Names "string list"

definition computation_names :: "TensorMap \<Rightarrow> string list" where
  "computation_names tm = map fst (mappings tm)"

definition mappings_getitem :: "TensorMap \<Rightarrow> string \<Rightarrow> py_error + Tensor list" where
  "mappings_getitem tm c =
     (case map_of (mappings tm) c of None \<Rightarrow> Inl (KeyError (KStr c)) | Some ts \<Rightarrow> Inr ts)"

fun tensors_tile_ids :: "json list \<Rightarrow> Tensor list \<Rightarrow> py_error + json list" where
  "tensors_tile_ids ids [] = Inr ids"
| "tensors_tile_ids ids (t # ts) =
     bind (Tensor_tile_ids t) (\<lambda>new.
     bind (set_update ids new) (\<lambda>ids'.
     tensors_tile_ids ids' ts))"

fun computations_tile_ids :: "TensorMap \<Rightarrow> json list \<Rightarrow> string list \<Rightarrow> py_error + json list" where
  "computations_tile_ids tm ids [] = Inr ids"
| "computations_tile_ids tm ids (c # cs) =
     bind (mappings_getitem tm c) (\<lambda>ts.
     bind (tensors_tile_ids ids ts) (\<lambda>ids'.
     computations_tile_ids tm ids' cs))"

definition tile_ids :: "TensorMap \<Rightarrow> computation \<Rightarrow> py_error + json list" where
  "tile_ids tm computation' =
     (let computations =
            (case computation' of
               Names cs \<Rightarrow> cs
             | Name c \<Rightarrow> if c \<noteq> [] then [c] else computation_names tm
             | NoComputation \<Rightarrow> computation_names tm)
      in computations_tile_ids tm [] computations)"

text \<open>
  \<^verbatim>\<open>ipu_ids\<close>: \<^verbatim>\<open>int(tile_id / self.num_tiles_per_ipu)\<close> for every tile id, as a set of
  integers.
\<close>

definition ipu_of_tile :: "pynum \<Rightarrow> json \<Rightarrow> py_error + int" where
  "ipu_of_tile n tile_id =
     bind (as_int tile_id) (\<lambda>t. bind (int_truediv t n) py_int)"

definition ipu_ids :: "TensorMap \<Rightarrow> computation \<Rightarrow> py_error + int set" where
  "ipu_ids tm computation' =
     bind (tile_ids tm computation') (\<lambda>tile_ids'.
     bind (mapM (ipu_of_tile (num_tiles_per_ipu tm)) tile_ids') (\<lambda>ipus.
     Inr (set ipus)))"


section \<open>ReportJSON\<close>

text \<open>
  The two library calls of \<^verbatim>\<open>parse_events\<close> are parameters:
  \<^verbatim>\<open>IpuTraceEvent.FromString\<close> turns a serialized record into an event or raises
  \<open>DecodeError\<close>, \<^verbatim>\<open>json.loads\<close> turns a payload into a value or raises
  (\<open>UnicodeDecodeError\<close> for text that is not UTF-8, \<open>ValueError\<close> for text that
  is not JSON).
\<close>

record externals =
  FromString :: "string \<Rightarrow> py_error + IpuTraceEvent"
  loads :: "string \<Rightarrow> py_error + json"

text \<open>
  The attributes \<^verbatim>\<open>parse_events\<close> assigns. The constructor assigns none of them, so an
  object that has not decoded anything yet is \<open>None\<close>, and reading an attribute of it
  raises \<open>AttributeError\<close>. The value stored for \<open>EXECUTE\<close> is the list of the
  execution reports.
\<close>

record ReportJSON =
  events :: "event_type \<rightharpoonup> json"
  tensor_map :: "TensorMap option"
  instruction_info :: json

definition events_getitem :: "ReportJSON option \<Rightarrow> event_type \<Rightarrow> py_error + json" where
  "events_getitem self k =
     (case self of
        None \<Rightarrow> Inl AttributeError
      | Some s \<Rightarrow> (case events s k of None \<Rightarrow> Inl (KeyError (KEvt k)) | Some v \<Rightarrow> Inr v))"

text \<open>\<^verbatim>\<open>sum\<close> adds the members to 0; \<^verbatim>\<open>max\<close> keeps the first greatest member and raises
  \<open>ValueError\<close> on an empty sequence. Ordering is modelled for integers only
  (comparing other values is a \<open>TypeError\<close> here).\<close>

definition py_sum :: "json \<Rightarrow> py_error + int" where
  "py_sum v = bind (py_iter v) (\<lambda>xs. bind (mapM as_int xs) (\<lambda>ns. Inr (sum_list ns)))"

fun max_loop :: "json \<Rightarrow> json list \<Rightarrow> py_error + json" where
  "max_loop cur [] = Inr cur"
| "max_loop cur (x # xs) =
     bind (as_int x) (\<lambda>a. bind (as_int cur) (\<lambda>c. max_loop (if c < a then x else cur) xs))"

definition py_max :: "json \<Rightarrow> py_error + json" where
  "py_max v =
     bind (py_iter v) (\<lambda>xs. case xs of [] \<Rightarrow> Inl ValueError | x # rest \<Rightarrow> max_loop x rest)"

definition json_truediv :: "json \<Rightarrow> json \<Rightarrow> py_error + pyfloat" where
  "json_truediv a b = bind (as_int a) (\<lambda>x. bind (as_int b) (\<lambda>y. int_truediv x (PInt y)))"

definition get_each_tile_memory :: "ReportJSON option \<Rightarrow> py_error + json" where
  "get_each_tile_memory self =
     bind (events_getitem self COMPILE_END) (\<lambda>r.
     bind (getitem_str r ''memory'') (\<lambda>m.
     bind (getitem_str m ''byTile'') (\<lambda>b.
     getitem_str b ''total'')))"

definition get_max_tile_memory :: "ReportJSON option \<Rightarrow> py_error + json" where
  "get_max_tile_memory self = bind (get_each_tile_memory self) py_max"

definition get_always_live_memory :: "ReportJSON option \<Rightarrow> py_error + int" where
  "get_always_live_memory self =
     bind (events_getitem self COMPILE_END) (\<lambda>r.
     bind (getitem_str r ''memory'') (\<lambda>m.
     bind (getitem_str m ''liveness'') (\<lambda>l.
     bind (getitem_str l ''alwaysLive'') (\<lambda>a.
     bind (getitem_str a ''bytesByTile'') py_sum))))"

definition get_total_tile_memory :: "ReportJSON option \<Rightarrow> py_error + int" where
  "get_total_tile_memory self = bind (get_each_tile_memory self) py_sum"

definition get_vertices :: "ReportJSON option \<Rightarrow> py_error + json" where
  "get_vertices self =
     bind (events_getitem self COMPILE_END) (\<lambda>r.
     bind (getitem_str r ''vertexTypes'') (\<lambda>v.
     getitem_str v ''names''))"

definition get_compute_sets :: "ReportJSON option \<Rightarrow> py_error + json" where
  "get_compute_sets self =
     bind (events_getitem self COMPILE_END) (\<lambda>r.
     bind (getitem_str r ''computeSets'') (\<lambda>c.
     getitem_str c ''names''))"

definition get_execution_reports :: "ReportJSON option \<Rightarrow> py_error + json" where
  "get_execution_reports self = events_getitem self EXECUTE"

definition get_instruction_info :: "ReportJSON option \<Rightarrow> py_error + json" where
  "get_instruction_info self =
     (case self of None \<Rightarrow> Inl AttributeError | Some s \<Rightarrow> Inr (instruction_info s))"

definition get_tensor_map :: "ReportJSON option \<Rightarrow> py_error + TensorMap option" where
  "get_tensor_map self =
     (case self of None \<Rightarrow> Inl AttributeError | Some s \<Rightarrow> Inr (tensor_map s))"

definition get_num_ipus :: "ReportJSON option \<Rightarrow> py_error + json" where
  "get_num_ipus self =
     bind (events_getitem self COMPILE_END) (\<lambda>r.
     bind (getitem_str r ''target'') (\<lambda>t.
     getitem_str t ''numIPUs''))"

definition get_num_tiles :: "ReportJSON option \<Rightarrow> py_error + json" where
  "get_num_tiles self =
     bind (events_getitem self COMPILE_END) (\<lambda>r.
     bind (getitem_str r ''target'') (\<lambda>t.
     getitem_str t ''numTiles''))"

definition get_num_tiles_per_ipu :: "ReportJSON option \<Rightarrow> py_error + pyfloat" where
  "get_num_tiles_per_ipu self =
     bind (get_num_tiles self) (\<lambda>t. bind (get_num_ipus self) (\<lambda>i. json_truediv t i))"

definition programs :: "ReportJSON option \<Rightarrow> py_error + json" where
  "programs self = bind (events_getitem self COMPILE_END) (\<lambda>r. getitem_str r ''programs'')"

fun first_of_type :: "string \<Rightarrow> json list \<Rightarrow> py_error + json" where
  "first_of_type program_type [] = Inr JNull"
| "first_of_type program_type (p # ps) =
     bind (getitem_str p ''type'') (\<lambda>t.
       if JString program_type = t then Inr p else first_of_type program_type ps)"

definition get_first_program_of_type :: "ReportJSON option \<Rightarrow> string \<Rightarrow> py_error + json" where
  "get_first_program_of_type self program_type =
     bind (programs self) (\<lambda>v. bind (py_iter v) (first_of_type program_type))"

fun names_of_type :: "string \<Rightarrow> json list \<Rightarrow> py_error + json list" where
  "names_of_type program_type [] = Inr []"
| "names_of_type program_type (p # ps) =
     bind (getitem_str p ''type'') (\<lambda>t.
       if t = JString program_type
       then bind (getitem_str p ''name'') (\<lambda>n.
            bind (names_of_type program_type ps) (\<lambda>ns. Inr (n # ns)))
       else names_of_type program_type ps)"

definition get_program_names_of_type :: "ReportJSON option \<Rightarrow> string \<Rightarrow> py_error + json list" where
  "get_program_names_of_type self program_type =
     bind (programs self) (\<lambda>v. bind (py_iter v) (names_of_type program_type))"

definition get_program :: "ReportJSON option \<Rightarrow> int \<Rightarrow> py_error + json" where
  "get_program self index' = bind (programs self) (\<lambda>v. getitem_int v index')"


text \<open>
  The body of the \<^verbatim>\<open>try\<close> statement of \<^verbatim>\<open>parse_events\<close>, one function for each kind
  that does something. A body returns the exception it raised, if any, and the
  attributes as they are at that moment: an assignment made before the exception stays.
\<close>

definition compile_end_body ::
  "externals \<Rightarrow> ReportJSON \<Rightarrow> IpuTraceEvent \<Rightarrow> py_error option \<times> ReportJSON" where
  "compile_end_body ext s evt =
     (if compile_end_compilation_report evt = [] then (None, s)
      else if COMPILE_END \<in> dom (events s) then (Some AssertionError, s)
      else case loads ext (compile_end_compilation_report evt) of
        Inl e \<Rightarrow> (Some e, s)
      | Inr report \<Rightarrow>
          let s1 = s\<lparr>events := (events s)(COMPILE_END \<mapsto> report)\<rparr>
          in case loads ext (compile_end_tensor_map evt) of
               Inl e \<Rightarrow> (Some e, s1)
             | Inr js_map \<Rightarrow>
                 (case get_num_tiles_per_ipu (Some s1) of
                    Inl e \<Rightarrow> (Some e, s1)
                  | Inr n \<Rightarrow>
                      (case TensorMap_init js_map (PFloat n) of
                         Inl e \<Rightarrow> (Some e, s1)
                       | Inr tm \<Rightarrow>
                           let s2 = s1\<lparr>tensor_map := Some tm\<rparr>
                           in case loads ext (compile_end_instruction_info evt) of
                                Inl e \<Rightarrow> (Some e, s2)
                              | Inr info \<Rightarrow> (None, s2\<lparr>instruction_info := info\<rparr>))))"

definition transfer_body ::
  "externals \<Rightarrow> event_type \<Rightarrow> ReportJSON \<Rightarrow> IpuTraceEvent \<Rightarrow> py_error option \<times> ReportJSON" where
  "transfer_body ext k s evt =
     (if data_transfer_data_transfer evt = [] then (None, s)
      else if k \<in> dom (events s) then (Some AssertionError, s)
      else case loads ext (data_transfer_data_transfer evt) of
        Inl e \<Rightarrow> (Some e, s)
      | Inr v \<Rightarrow> (None, s\<lparr>events := (events s)(k \<mapsto> v)\<rparr>))"

definition execute_body ::
  "externals \<Rightarrow> ReportJSON \<Rightarrow> IpuTraceEvent \<Rightarrow> py_error option \<times> ReportJSON" where
  "execute_body ext s evt =
     (if execute_execution_report evt = [] then (None, s)
      else case loads ext (execute_execution_report evt) of
        Inl e \<Rightarrow> (Some e, s)
      | Inr v \<Rightarrow>
          (case events s EXECUTE of
             None \<Rightarrow> (None, s\<lparr>events := (events s)(EXECUTE \<mapsto> JArray [v])\<rparr>)
           | Some (JArray vs) \<Rightarrow> (None, s\<lparr>events := (events s)(EXECUTE \<mapsto> JArray (vs @ [v]))\<rparr>)
           | Some _ \<Rightarrow> (Some TypeError, s)))"

definition try_body ::
  "externals \<Rightarrow> ReportJSON \<Rightarrow> IpuTraceEvent \<Rightarrow> py_error option \<times> ReportJSON" where
  "try_body ext s evt =
     (case type evt of
        COMPILE_BEGIN \<Rightarrow> (None, s)
      | COMPILE_END \<Rightarrow> compile_end_body ext s evt
      | HOST_TO_DEVICE_TRANSFER \<Rightarrow> transfer_body ext HOST_TO_DEVICE_TRANSFER s evt
      | DEVICE_TO_HOST_TRANSFER \<Rightarrow> transfer_body ext DEVICE_TO_HOST_TRANSFER s evt
      | LOAD_ENGINE \<Rightarrow> (None, s)
      | EXECUTE \<Rightarrow> execute_body ext s evt)"

text \<open>
  One turn of the loop over the records: parse the record (outside the \<^verbatim>\<open>try\<close>), count
  its kind, run the body, and swallow \<open>UnicodeDecodeError\<close> only. The loop stops at the
  first exception that is not swallowed.
\<close>

type_synonym events_types = "event_type \<rightharpoonup> nat"

definition count_type :: "events_types \<Rightarrow> event_type \<Rightarrow> events_types" where
  "count_type h k = h(k \<mapsto> (case h k of None \<Rightarrow> 0 | Some c \<Rightarrow> c) + 1)"

definition parse_event ::
  "externals \<Rightarrow> ReportJSON \<times> events_types \<Rightarrow> string
     \<Rightarrow> py_error option \<times> ReportJSON \<times> events_types" where
  "parse_event ext st e =
     (case FromString ext e of
        Inl err \<Rightarrow> (Some err, st)
      | Inr evt \<Rightarrow>
          let h = count_type (snd st) (type evt);
              r = try_body ext (fst st) evt
          in case fst r of
               None \<Rightarrow> (None, snd r, h)
             | Some UnicodeDecodeError \<Rightarrow> (None, snd r, h)
             | Some err \<Rightarrow> (Some err, snd r, h))"

fun parse_loop ::
  "externals \<Rightarrow> ReportJSON \<times> events_types \<Rightarrow> string list
     \<Rightarrow> py_error option \<times> ReportJSON \<times> events_types" where
  "parse_loop ext st [] = (None, st)"
| "parse_loop ext st (e # es) =
     (case parse_event ext st e of
        (None, st') \<Rightarrow> parse_loop ext st' es
      | (Some err, st') \<Rightarrow> (Some err, st'))"

definition fresh :: "ReportJSON \<times> events_types" where
  "fresh = (\<lparr>events = Map.empty, tensor_map = None, instruction_info = JObject []\<rparr>, Map.empty)"

text \<open>
  \<^verbatim>\<open>parse_events(events, assert_len, assert_msg)\<close>: the count is checked when
  \<^verbatim>\<open>assert_len\<close> is true (given and not zero), before anything is assigned; then the
  attributes are reset and the records are decoded. The result is the exception or the
  count of each kind, with the attributes of the object afterwards.
\<close>

definition parse_events ::
  "externals \<Rightarrow> ReportJSON option \<Rightarrow> string list \<Rightarrow> int option \<Rightarrow> string
     \<Rightarrow> (py_error + events_types) \<times> ReportJSON option" where
  "parse_events ext self events' assert_len assert_msg =
     (case (case assert_len of
              None \<Rightarrow> None
            | Some n \<Rightarrow> if n \<noteq> 0 \<and> n \<noteq> int (length events')
                        then Some (AssertEqualError n (int (length events')) assert_msg)
                        else None) of
        Some err \<Rightarrow> (Inl err, self)
      | None \<Rightarrow>
          (case parse_loop ext fresh events' of
             (None, s, h) \<Rightarrow> (Inr h, Some s)
           | (Some err, s, h) \<Rightarrow> (Inl err, Some s)))"


text \<open>
  A caller reaches the tile and IPU queries through the \<^verbatim>\<open>tensor_map\<close> attribute
  (\<^verbatim>\<open>self.tensor_map.ipu_ids(stage)\<close> in \<^verbatim>\<open>assert_pipeline_stages_on_expected_ipu\<close>);
  on \<^verbatim>\<open>None\<close> the method lookup raises \<open>AttributeError\<close>.
\<close>

definition the_tensor_map :: "ReportJSON option \<Rightarrow> py_error + TensorMap" where
  "the_tensor_map self =
     bind (get_tensor_map self) (\<lambda>tm. case tm of None \<Rightarrow> Inl AttributeError | Some t \<Rightarrow> Inr t)"


text \<open>
  Externals for the worked examples: a decoder given by a finite table, with a default
  for every other string.
\<close>

definition lookup_or :: "(string \<times> 'a) list \<Rightarrow> 'a \<Rightarrow> string \<Rightarrow> 'a" where
  "lookup_or t d k = (case map_of t k of None \<Rightarrow> d | Some v \<Rightarrow> v)"

definition no_event :: "event_type \<Rightarrow> IpuTraceEvent" where
  "no_event k =
     \<lparr>type = k, compile_end_compilation_report = [], compile_end_tensor_map = [],
      compile_end_instruction_info = [], data_transfer_data_transfer = [],
      execute_execution_report = []\<rparr>"

definition compile_end_event :: "string \<Rightarrow> string \<Rightarrow> string \<Rightarrow> IpuTraceEvent" where
  "compile_end_event report js_map info =
     (no_event COMPILE_END)
       \<lparr>compile_end_compilation_report := report, compile_end_tensor_map := js_map,
        compile_end_instruction_info := info\<rparr>"

definition target_report :: "int \<Rightarrow> int \<Rightarrow> json list \<Rightarrow> json" where
  "target_report ipus tiles' totals =
     JObject [(''target'', JObject [(''numIPUs'', JInt ipus), (''numTiles'', JInt tiles')]),
              (''memory'', JObject [(''byTile'', JObject [(''total'', JArray totals)])])]"

definition compile_end_ext :: "json \<Rightarrow> json \<Rightarrow> externals" where
  "compile_end_ext report js_map =
     \<lparr>FromString =
        lookup_or [(''compile_end'', Inr (compile_end_event ''report'' ''tensor_map'' ''info''))]
          (Inl DecodeError),
      loads =
        lookup_or [(''report'', Inr report), (''tensor_map'', Inr js_map),
                   (''info'', Inr (JObject []))]
          (Inl ValueError)\<rparr>"

section \<open>The properties as the specification words them\<close>

text \<open>
  \<^verbatim>\<open>get_num_ipus() * get_num_tiles_per_ipu()\<close>, the product the specification compares
  with \<^verbatim>\<open>get_num_tiles()\<close>: an integer times a float, in floating point.
\<close>

definition ipus_times_tiles_per_ipu :: "ReportJSON option \<Rightarrow> py_error + pyfloat" where
  "ipus_times_tiles_per_ipu self =
     bind (get_num_ipus self) (\<lambda>i.
     bind (as_int i) (\<lambda>n.
     bind (get_num_tiles_per_ipu self) (\<lambda>q.
     int_mul_float n q)))"

text \<open>
  The set of IPU ids as the specification words it: the floor (\<^verbatim>\<open>math.floor\<close>) of
  \<^verbatim>\<open>tile_id / num_tiles_per_ipu\<close> for every tile id of the selection.
\<close>

definition py_floor :: "pyfloat \<Rightarrow> py_error + int" where
  "py_floor x =
     (case x of
        Finite r \<Rightarrow> Inr \<lfloor>r\<rfloor>
      | NaN \<Rightarrow> Inl ValueError
      | _ \<Rightarrow> Inl OverflowError)"

definition floor_ipu_of_tile :: "pynum \<Rightarrow> json \<Rightarrow> py_error + int" where
  "floor_ipu_of_tile n tile_id =
     bind (as_int tile_id) (\<lambda>t. bind (int_truediv t n) py_floor)"

definition ipu_ids_floor :: "TensorMap \<Rightarrow> computation \<Rightarrow> py_error + int set" where
  "ipu_ids_floor tm computation' =
     bind (tile_ids tm computation') (\<lambda>tile_ids'.
     bind (mapM (floor_ipu_of_tile (num_tiles_per_ipu tm)) tile_ids') (\<lambda>ipus.
     Inr (set ipus)))"

text \<open>Every tile id of the map is a non-negative integer; a number is not negative.\<close>

definition nonneg_tile_ids :: "TensorMap \<Rightarrow> bool" where
  "nonneg_tile_ids tm =
     list_all (\<lambda>m. list_all (\<lambda>t. list_all (\<lambda>tl. case tile tl of JInt k \<Rightarrow> 0 \<le> k | _ \<Rightarrow> False)
                                    (tiles t))
                       (snd m))
       (mappings tm)"

definition nonneg_num :: "pynum \<Rightarrow> bool" where
  "nonneg_num n =
     (case n of
        PInt m \<Rightarrow> 0 \<le> m
      | PFloat (Finite d) \<Rightarrow> 0 \<le> d
      | PFloat PInf \<Rightarrow> True
      | PFloat _ \<Rightarrow> False)"


text \<open>
  The payload \<^verbatim>\<open>parse_events\<close> decodes first for an event, by kind (none for
  \<open>COMPILE_BEGIN\<close> and \<open>LOAD_ENGINE\<close>).
\<close>

definition first_payload :: "IpuTraceEvent \<Rightarrow> string" where
  "first_payload evt =
     (case type evt of
        COMPILE_END \<Rightarrow> compile_end_compilation_report evt
      | HOST_TO_DEVICE_TRANSFER \<Rightarrow> data_transfer_data_transfer evt
      | DEVICE_TO_HOST_TRANSFER \<Rightarrow> data_transfer_data_transfer evt
      | EXECUTE \<Rightarrow> execute_execution_report evt
      | _ \<Rightarrow> [])"


section \<open>Properties of the name patterns\<close>

lemma foldl_append_filter:
  "foldl (\<lambda>acc x. if P x then acc @ [x] else acc) acc xs = acc @ filter P xs"
  by (induction xs arbitrary: acc) auto

lemma glob_match_star: "glob_match (Star # r) s = (\<exists>k\<le>length s. glob_match r (drop k s))"
proof (induction s)
  case Nil
  then show ?case by simp
next
  case (Cons x s)
  show ?case
  proof
    assume "glob_match (Star # r) (x # s)"
    then consider "glob_match r (x # s)" | "glob_match (Star # r) s" by auto
    then show "\<exists>k\<le>length (x # s). glob_match r (drop k (x # s))"
    proof cases
      case 1
      then have "glob_match r (drop 0 (x # s))" by simp
      then show ?thesis by blast
    next
      case 2
      with Cons obtain k where "k \<le> length s" "glob_match r (drop k s)" by auto
      then have "Suc k \<le> length (x # s)" "glob_match r (drop (Suc k) (x # s))" by auto
      then show ?thesis by blast
    qed
  next
    assume "\<exists>k\<le>length (x # s). glob_match r (drop k (x # s))"
    then obtain k where k: "k \<le> length (x # s)" "glob_match r (drop k (x # s))" by auto
    show "glob_match (Star # r) (x # s)"
    proof (cases k)
      case 0
      with k show ?thesis by simp
    next
      case (Suc j)
      with k have "j \<le> length s" "glob_match r (drop j s)" by auto
      with Cons have "glob_match (Star # r) s" by auto
      then show ?thesis by simp
    qed
  qed
qed

lemma glob_match_star_cons: "glob_match (star_cons r) s = glob_match (Star # r) s"
proof (cases r)
  case Nil
  then show ?thesis by (simp add: star_cons_def)
next
  case (Cons g r')
  show ?thesis
  proof (cases g)
    case Star
    have "glob_match (Star # Star # r') s = glob_match (Star # r') s"
      by (induction s) auto
    with Cons Star show ?thesis by (simp add: star_cons_def)
  qed (use Cons in \<open>simp_all add: star_cons_def\<close>)
qed

lemma glob_match_cong:
  assumes "\<And>t. glob_match r t = glob_match r' t"
  shows "glob_match (g # r) s = glob_match (g # r') s"
  using assms by (induction s) (cases g; simp)+

lemma ex_take_Cons:
  "(\<exists>k\<le>length (x # s). P (take k (x # s))) = (P [] \<or> (\<exists>k\<le>length s. P (x # take k s)))"
proof
  assume "\<exists>k\<le>length (x # s). P (take k (x # s))"
  then obtain k where k: "k \<le> length (x # s)" "P (take k (x # s))" by auto
  show "P [] \<or> (\<exists>k\<le>length s. P (x # take k s))"
  proof (cases k)
    case 0
    with k show ?thesis by simp
  next
    case (Suc j)
    with k have "j \<le> length s" "P (x # take j s)" by auto
    then show ?thesis by blast
  qed
next
  assume "P [] \<or> (\<exists>k\<le>length s. P (x # take k s))"
  then show "\<exists>k\<le>length (x # s). P (take k (x # s))"
  proof
    assume "P []"
    then have "P (take 0 (x # s))" by simp
    then show ?thesis by blast
  next
    assume "\<exists>k\<le>length s. P (x # take k s)"
    then obtain k where "k \<le> length s" "P (x # take k s)" by auto
    then have "Suc k \<le> length (x # s)" "P (take (Suc k) (x # s))" by auto
    then show ?thesis by blast
  qed
qed

lemma glob_match_snoc_star:
  "glob_match (r @ [Star]) s = (\<exists>k\<le>length s. glob_match r (take k s))"
proof (induction r s rule: glob_match.induct)
  case (1 s)
  have "glob_match [Star] s" by (induction s) auto
  then show ?case by auto
next
  case (3 r x s)
  have "glob_match ((Star # r) @ [Star]) (x # s)
        = (glob_match (r @ [Star]) (x # s) \<or> glob_match ((Star # r) @ [Star]) s)" by simp
  also have "\<dots> = ((\<exists>k\<le>length (x # s). glob_match r (take k (x # s)))
                   \<or> (\<exists>k\<le>length s. glob_match (Star # r) (take k s)))"
    using 3 by simp
  also have "\<dots> = (\<exists>k\<le>length (x # s). glob_match (Star # r) (take k (x # s)))"
    unfolding ex_take_Cons [of x s] by auto
  finally show ?case .
next
  case (5 r x s)
  then show ?case using ex_take_Cons [of x s "glob_match (AnyChar # r)"] by simp
next
  case (8 c r x s)
  then show ?case using ex_take_Cons [of x s "glob_match (Lit c # r)"] by auto
next
  case (10 neg chunks r x s)
  then show ?case using ex_take_Cons [of x s "glob_match (CharClass neg chunks # r)"] by auto
qed simp_all

lemma find_char_append_other:
  "c \<noteq> d \<Longrightarrow> find_char c (xs @ [d]) = find_char c xs"
  by (induction xs) auto

lemma find_char_less: "find_char c xs = Some k \<Longrightarrow> k < length xs"
  by (induction xs arbitrary: k) (auto split: if_splits)

lemma bracket_end_less: "bracket_end pat = Some j \<Longrightarrow> j < length pat"
  by (cases pat; cases "tl pat")
     (auto simp: bracket_end_def Let_def  dest!: find_char_less split: if_splits list.splits)

lemma bracket_end_append_star: "bracket_end (pat @ ''*'') = bracket_end pat"
proof (cases pat)
  case Nil
  then show ?thesis by (simp add: bracket_end_def)
next
  case (Cons x xs)
  then show ?thesis
    by (cases xs) (auto simp: bracket_end_def Let_def find_char_append_other)
qed

lemma glob_match_star_cons_snoc:
  "glob_match (star_cons r @ [Star]) s = glob_match ((Star # r) @ [Star]) s"
  unfolding glob_match_snoc_star by (simp only: glob_match_star_cons)

lemma translate_append_star:
  "glob_match (translate (p @ ''*'')) s = glob_match (translate p @ [Star]) s"
proof (induction p arbitrary: s rule: translate.induct)
  case 1
  then show ?case by (simp add: star_cons_def)
next
  case (2 c pat)
  show ?case
  proof (cases "c = CHR ''*''")
    case True
    have "glob_match (translate ((c # pat) @ ''*'')) s
          = glob_match (Star # translate (pat @ ''*'')) s"
      using True by (simp add: glob_match_star_cons)
    also have "\<dots> = glob_match (Star # (translate pat @ [Star])) s"
      using 2(1) [OF True] by (rule glob_match_cong)
    also have "\<dots> = glob_match (translate (c # pat) @ [Star]) s"
      using True by (simp add: glob_match_star_cons_snoc)
    finally show ?thesis .
  next
    case notstar: False
    show ?thesis
    proof (cases "c = CHR ''?''")
      case True
      have "glob_match (AnyChar # translate (pat @ ''*'')) s
            = glob_match (AnyChar # (translate pat @ [Star])) s"
        using 2(2) [OF notstar True] by (rule glob_match_cong)
      then show ?thesis using True by simp
    next
      case notq: False
      show ?thesis
      proof (cases "c = CHR ''[''")
        case True
        show ?thesis
        proof (cases "bracket_end pat")
          case None
          have "glob_match (Lit c # translate (pat @ ''*'')) s
                = glob_match (Lit c # (translate pat @ [Star])) s"
            using 2(3) [OF notstar notq True None] by (rule glob_match_cong)
          then show ?thesis using True None by (simp add: bracket_end_append_star)
        next
          case (Some j)
          then have j: "j < length pat" by (rule bracket_end_less)
          have "glob_match (bracket_item (take j pat) # translate (drop (Suc j) pat @ ''*'')) s
                = glob_match (bracket_item (take j pat) # (translate (drop (Suc j) pat) @ [Star])) s"
            using 2(4) [OF notstar notq True Some] by (rule glob_match_cong)
          then show ?thesis using True Some j by (simp add: bracket_end_append_star)
        qed
      next
        case False
        have "glob_match (Lit c # translate (pat @ ''*'')) s
              = glob_match (Lit c # (translate pat @ [Star])) s"
          using 2(5) [OF notstar notq False] by (rule glob_match_cong)
        then show ?thesis using notstar notq False by simp
      qed
    qed
  qed
qed

lemma fnmatch_star_suffix:
  "fnmatch name (p @ ''*'') = (\<exists>k\<le>length name. fnmatch (take k name) p)"
  by (simp add: fnmatch_def translate_append_star glob_match_snoc_star)

lemma translate_plain: "plain p \<Longrightarrow> translate p = map Lit p"
  by (induction p) (auto simp: plain_def)

lemma glob_match_lits: "glob_match (map Lit p) s = (s = p)"
proof (induction p arbitrary: s)
  case Nil
  then show ?case by simp
next
  case (Cons c p)
  then show ?case by (cases s) auto
qed

lemma fnmatch_plain: "plain p \<Longrightarrow> fnmatch name p = (name = p)"
  by (simp add: fnmatch_def translate_plain glob_match_lits)

lemma fnmatch_plain_star:
  assumes "plain p"
  shows "fnmatch name (p @ ''*'') = (take (length p) name = p)"
proof -
  have "fnmatch name (p @ ''*'') = (\<exists>k\<le>length name. take k name = p)"
    using assms by (simp add: fnmatch_star_suffix fnmatch_plain)
  also have "\<dots> = (take (length p) name = p)"
  proof
    assume "\<exists>k\<le>length name. take k name = p"
    then obtain k where "k \<le> length name" "take k name = p" by blast
    then have "length p = k" by auto
    with \<open>take k name = p\<close> show "take (length p) name = p" by simp
  next
    assume h: "take (length p) name = p"
    have "length (take (length p) name) = min (length name) (length p)" by simp
    with h have "length p \<le> length name" by simp
    with h show "\<exists>k\<le>length name. take k name = p" by blast
  qed
  finally show ?thesis .
qed


text \<open>
  C10: \<^verbatim>\<open>missing_names_in_whitelist_entries\<close> never reports the empty name: the test
  \<^verbatim>\<open>if name and ...\<close> skips it whatever the whitelist is, also when nothing in the
  whitelist matches it.
\<close>

theorem missing_names_never_empty_name:
  "[] \<notin> set (missing_names_in_whitelist_entries names whitelist)"
  by (simp add: missing_names_in_whitelist_entries_def foldl_append_filter)

text \<open>
  C7: every whitelist entry is matched with a \<^verbatim>\<open>*\<close> appended, by \<^verbatim>\<open>fnmatch\<close>: a name
  is reported when it is not empty and no entry matches it, an entry (with its \<^verbatim>\<open>*\<close>)
  is reported when it matches no name. Matching an entry followed by \<^verbatim>\<open>*\<close> is matching
  the entry against some prefix of the name; the match itself is anchored to the whole
  string (an entry without metacharacter matches only itself), \<^verbatim>\<open>?\<close> stands for one
  character and \<^verbatim>\<open>[seq]\<close> for one character of the sequence. Names
  \<^verbatim>\<open>["convXXX/Conv2D", "poolXXX"]\<close> against the whitelist \<^verbatim>\<open>["convXXX"]\<close> leave
  \<^verbatim>\<open>["poolXXX"]\<close> unmatched and no whitelist entry unmatched.
\<close>

theorem whitelist_matching_is_glob_with_star:
  "missing_names_in_whitelist_entries names whitelist
     = [n \<leftarrow> names. n \<noteq> [] \<and> (\<forall>x\<in>set whitelist. \<not> fnmatch n (x @ ''*''))]
   \<and> missing_whitelist_entries_in_names names whitelist
     = [x \<leftarrow> map (\<lambda>w. w @ ''*'') whitelist. \<forall>n\<in>set names. \<not> fnmatch n x]
   \<and> fnmatch name (p @ ''*'') = (\<exists>k\<le>length name. fnmatch (take k name) p)
   \<and> (plain p \<longrightarrow> fnmatch name p = (name = p))
   \<and> fnmatch name ''?'' = (length name = 1)
   \<and> fnmatch name ''[seq]'' = (name \<in> {''s'', ''e'', ''q''})
   \<and> missing_names_in_whitelist_entries [''convXXX/Conv2D'', ''poolXXX''] [''convXXX'']
     = [''poolXXX'']
   \<and> missing_whitelist_entries_in_names [''convXXX/Conv2D'', ''poolXXX''] [''convXXX''] = []"
proof -
  have a: "missing_names_in_whitelist_entries names whitelist
     = [n \<leftarrow> names. n \<noteq> [] \<and> (\<forall>x\<in>set whitelist. \<not> fnmatch n (x @ ''*''))]"
    by (simp add: missing_names_in_whitelist_entries_def foldl_append_filter
        filter_empty_conv)
  have b: "missing_whitelist_entries_in_names names whitelist
     = [x \<leftarrow> map (\<lambda>w. w @ ''*'') whitelist. \<forall>n\<in>set names. \<not> fnmatch n x]"
    by (simp add: missing_whitelist_entries_in_names_def foldl_append_filter
        filter_empty_conv)
  have c: "fnmatch name ''?'' = (length name = 1)"
    by (cases name; cases "tl name") (auto simp: fnmatch_def)
  have d: "fnmatch name ''[seq]'' = (name \<in> {''s'', ''e'', ''q''})"
    by (cases name; cases "tl name")
       (auto simp: fnmatch_def bracket_end_def bracket_item_def)
  have m: "fnmatch n ''convXXX*'' = (take (length ''convXXX'') n = ''convXXX'')" for n
    using fnmatch_plain_star [of "''convXXX''" n] by (simp add: plain_def)
  have e: "missing_names_in_whitelist_entries [''convXXX/Conv2D'', ''poolXXX''] [''convXXX'']
     = [''poolXXX'']"
    by (simp add: missing_names_in_whitelist_entries_def m)
  have f: "missing_whitelist_entries_in_names [''convXXX/Conv2D'', ''poolXXX''] [''convXXX'']
     = []"
    by (simp add: missing_whitelist_entries_in_names_def m)
  show ?thesis
    using a b c d e f fnmatch_star_suffix [of name p] fnmatch_plain [of p name] by blast
qed

theorem whitelist_matching_is_glob_with_star_witness:
  "plain ''poolXXX'' \<and> fnmatch ''poolXXX'' ''poolXXX''
   \<and> \<not> fnmatch ''poolXXX/MaxPool'' ''poolXXX''
   \<and> missing_names_in_whitelist_entries [''poolXXX'', [], ''fc''] [''pool''] = [''fc'']"
proof -
  have p: "plain ''poolXXX''" by (simp add: plain_def)
  note t = whitelist_matching_is_glob_with_star
    [of "[''poolXXX'', [], ''fc'']" "[''pool'']" _ "''poolXXX''"]
  from t [of "''poolXXX''"] p have 1: "fnmatch ''poolXXX'' ''poolXXX''" by simp
  from t [of "''poolXXX/MaxPool''"] p
  have 2: "\<not> fnmatch ''poolXXX/MaxPool'' ''poolXXX''" by simp
  have 3: "\<not> fnmatch ''fc'' ''pool*''" "fnmatch ''poolXXX'' ''pool*''"
    using fnmatch_plain_star [of "''pool''"] by (simp_all add: plain_def)
  from t [of "[]"] 3 have "missing_names_in_whitelist_entries [''poolXXX'', [], ''fc''] [''pool'']
     = [''fc'']" by simp
  with p 1 2 show ?thesis by simp
qed

section \<open>Properties of the rounding\<close>

text \<open>
  \<open>ilog2\<close> finds the binary exponent, so a rounding can be computed from the exponent
  and the rounded significand; integers below \<open>2 ^ 53\<close> in magnitude are floats, and a
  non-negative rational rounds to a non-negative float or overflows.
\<close>

lemma round_half_even_of_int [simp]: "round_half_even (of_int m) = m"
  by (simp add: round_half_even_def)

lemma round_half_even_nonneg: "0 \<le> x \<Longrightarrow> 0 \<le> round_half_even x"
  by (auto simp: round_half_even_def Let_def)

lemma round_half_even_near:
  assumes "of_int m - 1 / 2 < x" "x < of_int m + 1 / 2"
  shows "round_half_even x = m"
proof -
  have "\<lfloor>x\<rfloor> = m \<or> \<lfloor>x\<rfloor> = m - 1" using assms by linarith
  then show ?thesis
  proof
    assume f: "\<lfloor>x\<rfloor> = m"
    then have "x - of_int \<lfloor>x\<rfloor> < 1 / 2" using assms by simp
    with f show ?thesis by (simp add: round_half_even_def Let_def)
  next
    assume f: "\<lfloor>x\<rfloor> = m - 1"
    then have "1 / 2 < x - of_int \<lfloor>x\<rfloor>" using assms by simp
    with f show ?thesis by (simp add: round_half_even_def Let_def)
  qed
qed

lemma powi_two_mono: "a \<le> b \<Longrightarrow> (2::rat) powi a \<le> 2 powi b"
  by (rule power_int_increasing) simp_all

lemma powi_two_less_le: "(2::rat) powi a < 2 powi b \<Longrightarrow> a < b"
  by (metis linorder_not_le powi_two_mono)

lemma powi_nat: "0 \<le> n \<Longrightarrow> (2::rat) powi n = 2 ^ nat n"
  by (simp add: power_int_def)

lemma bitlen_bounds_rat:
  assumes "0 < p"
  shows "(2::rat) powi (bitlen p - 1) \<le> of_int p" "of_int p < (2::rat) powi (bitlen p)"
proof -
  have b: "1 \<le> bitlen p"
    using assms bitlen_eq_zero_iff [of p] bitlen_nonneg [of p] by linarith
  from bitlen_bounds [OF assms]
  have 1: "2 ^ nat (bitlen p - 1) \<le> p" and 2: "p < 2 ^ nat (bitlen p)" by auto
  from 1 have "rat_of_int (2 ^ nat (bitlen p - 1)) \<le> of_int p" by (simp only: of_int_le_iff)
  then show "(2::rat) powi (bitlen p - 1) \<le> of_int p" using b by (simp add: powi_nat)
  from 2 have "rat_of_int p < of_int (2 ^ nat (bitlen p))" by (simp only: of_int_less_iff)
  then show "of_int p < (2::rat) powi (bitlen p)" using b by (simp add: powi_nat)
qed

lemma ilog2_bounds:
  assumes "0 < x"
  shows "2 powi (ilog2 x) \<le> x \<and> x < 2 powi (ilog2 x + 1)"
proof -
  obtain p q where pq: "quotient_of x = (p, q)" by (cases "quotient_of x")
  then have q: "0 < q" by (rule quotient_of_denom_pos)
  have x: "x = of_int p / of_int q" using pq by (rule quotient_of_div)
  with assms q have p: "0 < p" by (simp add: zero_less_divide_iff)
  define bp bq where "bp = bitlen p" and "bq = bitlen q"
  note P = bitlen_bounds_rat [OF p, folded bp_def]
  note Q = bitlen_bounds_rat [OF q, folded bq_def]
  have qpos: "(0::rat) < of_int q" using q by simp
  have "x * of_int q = of_int p" using x q by simp
  have up: "x < 2 powi (bp - bq + 1)"
  proof -
    have "of_int p < (2::rat) powi bp" by (rule P)
    also have "\<dots> = 2 powi (bp - bq + 1) * 2 powi (bq - 1)"
      by (simp flip: power_int_add)
    also have "\<dots> \<le> 2 powi (bp - bq + 1) * of_int q"
      using Q(1) by (simp add: mult_left_mono)
    finally have "x * of_int q < 2 powi (bp - bq + 1) * of_int q"
      using \<open>x * of_int q = of_int p\<close> by simp
    then show ?thesis using qpos by simp
  qed
  have lo: "2 powi (bp - bq - 1) \<le> x"
  proof -
    have "(2::rat) powi (bp - bq - 1) * of_int q \<le> 2 powi (bp - bq - 1) * 2 powi bq"
      using Q(2) by (simp add: mult_left_mono)
    also have "\<dots> = 2 powi (bp - 1)"
      by (simp flip: power_int_add)
    also have "\<dots> \<le> of_int p" by (rule P)
    finally have "2 powi (bp - bq - 1) * of_int q \<le> x * of_int q"
      using \<open>x * of_int q = of_int p\<close> by simp
    then show ?thesis using qpos by simp
  qed
  show ?thesis
  proof (cases "2 powi (bp - bq) \<le> x")
    case True
    then have "ilog2 x = bp - bq" by (simp add: ilog2_def pq bp_def bq_def)
    with True up show ?thesis by simp
  next
    case False
    then have "ilog2 x = bp - bq - 1" by (simp add: ilog2_def pq bp_def bq_def)
    with False lo show ?thesis by simp
  qed
qed

lemma ilog2_unique:
  assumes "2 powi e \<le> x" "x < 2 powi (e + 1)"
  shows "ilog2 x = e"
proof -
  have "(0::rat) < 2 powi e" by simp
  with assms have x: "0 < x" by linarith
  note b = ilog2_bounds [OF x]
  from b assms have "(2::rat) powi (ilog2 x) < 2 powi (e + 1)" by linarith
  then have 1: "ilog2 x < e + 1" by (rule powi_two_less_le)
  from b assms have "(2::rat) powi e < 2 powi (ilog2 x + 1)" by linarith
  then have 2: "e < ilog2 x + 1" by (rule powi_two_less_le)
  from 1 2 show ?thesis by simp
qed

lemma fl64_pos_eval:
  assumes "2 powi e \<le> x" "x < 2 powi (e + 1)" "- 1022 \<le> e"
    and "of_int m - 1 / 2 < x / 2 powi (e - 52)" "x / 2 powi (e - 52) < of_int m + 1 / 2"
    and "of_int m * 2 powi (e - 52) < (2::rat) powi 1024"
  shows "fl64 x = Finite (of_int m * 2 powi (e - 52))"
proof -
  have "(0::rat) < 2 powi e" by simp
  with assms have x: "0 < x" by linarith
  have e: "ilog2 x = e" using assms(1,2) by (rule ilog2_unique)
  have r: "round_half_even (x / 2 powi (e - 52)) = m"
    using assms(4,5) by (rule round_half_even_near)
  have ax: "\<bar>x\<bar> = x" using x by simp
  have mx: "max (ilog2 x) (- 1022) = e" using e assms(3) by simp
  have nb: "\<not> 2 powi 1024 \<le> rat_of_int m * 2 powi (e - 52)"
    using assms(6) by (simp only: not_le)
  have xn0: "x \<noteq> 0" and xnn: "\<not> x < 0" using x by simp_all
  show ?thesis
    unfolding fl64_def Let_def ax mx r by (simp only: xn0 nb xnn if_False)
qed

lemma fl64_of_pos_int:
  assumes "0 < k" "k < 2 ^ 53"
  shows "fl64 (of_int k) = Finite (of_int k)"
proof -
  define e where "e = bitlen k - 1"
  have b1: "1 \<le> bitlen k"
    using assms(1) bitlen_eq_zero_iff [of k] bitlen_nonneg [of k] by linarith
  have "bitlen k \<le> 53" using assms(2) by (simp add: bitlen_le_iff_power)
  with b1 have e: "0 \<le> e" "e \<le> 52" by (simp_all add: e_def)
  define m where "m = k * 2 ^ nat (52 - e)"
  have lo: "(2::rat) powi e \<le> of_int k" and hi: "of_int k < (2::rat) powi (e + 1)"
    using bitlen_bounds_rat [OF assms(1)] by (simp_all add: e_def)
  have ulp: "(2::rat) powi (e - 52) = 1 / 2 ^ nat (52 - e)"
    using e by (simp add: power_int_def field_simps)
  have q: "rat_of_int k / 2 powi (e - 52) = of_int m"
    by (simp add: ulp m_def)
  have mk: "rat_of_int m * 2 powi (e - 52) = of_int k"
    by (simp add: ulp m_def)
  have "rat_of_int k < of_int (2 ^ 53)" using assms(2) by (simp only: of_int_less_iff)
  also have "\<dots> = 2 powi 53" by simp
  also have "\<dots> \<le> 2 powi 1024" by (rule powi_two_mono) simp
  finally have big: "rat_of_int m * 2 powi (e - 52) < 2 powi 1024" by (simp only: mk)
  have "fl64 (of_int k) = Finite (of_int m * 2 powi (e - 52))"
  proof (rule fl64_pos_eval [OF lo hi _ _ _ big])
    show "- 1022 \<le> e" using e by simp
    show "rat_of_int m - 1 / 2 < rat_of_int k / 2 powi (e - 52)" unfolding q by simp
    show "rat_of_int k / 2 powi (e - 52) < rat_of_int m + 1 / 2" unfolding q by simp
  qed
  then show ?thesis by (simp only: mk)
qed

lemma fl64_minus:
  "fl64 (- x) =
     (case fl64 x of Finite r \<Rightarrow> Finite (- r) | PInf \<Rightarrow> NInf | NInf \<Rightarrow> PInf | NaN \<Rightarrow> NaN)"
proof -
  define big :: rat where "big = 2 powi 1024"
  show ?thesis
    unfolding fl64_def Let_def big_def [symmetric]
    by (cases "x = 0"; cases "x < 0") auto
qed

lemma fl64_of_int:
  assumes "\<bar>k\<bar> < 2 ^ 53"
  shows "fl64 (of_int k) = Finite (of_int k)"
proof -
  consider "k = 0" | "0 < k" | "k < 0" by linarith
  then show ?thesis
  proof cases
    case 1
    then show ?thesis by (simp add: fl64_def)
  next
    case 2
    with assms show ?thesis by (intro fl64_of_pos_int) simp_all
  next
    case 3
    with assms have "fl64 (of_int (- k)) = Finite (of_int (- k))"
      by (intro fl64_of_pos_int) simp_all
    then have "fl64 (- of_int (- k)) = Finite (- of_int (- k))"
      by (simp only: fl64_minus pyfloat.case)
    then show ?thesis by simp
  qed
qed


lemma fl64_nonneg:
  assumes "0 \<le> x"
  shows "fl64 x = PInf \<or> (\<exists>r\<ge>0. fl64 x = Finite r)"
proof (cases "x = 0")
  case True
  then show ?thesis by (simp add: fl64_def)
next
  case False
  with assms have "0 < x" by simp
  define ulp :: rat where "ulp = 2 powi (max (ilog2 \<bar>x\<bar>) (- 1022) - 52)"
  define big :: rat where "big = 2 powi 1024"
  have "0 < ulp" by (simp add: ulp_def)
  then have "0 \<le> \<bar>x\<bar> / ulp" by simp
  then have "0 \<le> round_half_even (\<bar>x\<bar> / ulp)" by (rule round_half_even_nonneg)
  then have "0 \<le> of_int (round_half_even (\<bar>x\<bar> / ulp)) * ulp"
    using \<open>0 < ulp\<close> by simp
  with \<open>0 < x\<close> show ?thesis
    unfolding fl64_def Let_def ulp_def [symmetric] big_def [symmetric] by auto
qed

section \<open>Properties of the report decoder\<close>

lemma parse_loop_append:
  "parse_loop ext st (xs @ ys) =
     (case parse_loop ext st xs of
        (None, st') \<Rightarrow> parse_loop ext st' ys
      | (Some err, st') \<Rightarrow> (Some err, st'))"
proof (induction xs arbitrary: st)
  case Nil
  then show ?case by simp
next
  case (Cons x xs)
  then show ?case by (cases "parse_event ext st x") (auto split: option.splits)
qed

lemma parse_events_count_mismatch:
  "n \<noteq> 0 \<Longrightarrow> n \<noteq> int (length evs) \<Longrightarrow>
   parse_events ext self evs (Some n) msg = (Inl (AssertEqualError n (int (length evs)) msg), self)"
  by (simp add: parse_events_def)

lemma parse_events_count_ok:
  "\<forall>n. assert_len = Some n \<longrightarrow> n = 0 \<or> n = int (length evs) \<Longrightarrow>
   parse_events ext self evs assert_len msg =
     (case parse_loop ext fresh evs of
        (None, s, h) \<Rightarrow> (Inr h, Some s)
      | (Some err, s, h) \<Rightarrow> (Inl err, Some s))"
  by (cases assert_len) (auto simp: parse_events_def)

lemma try_body_duplicate:
  assumes "type evt \<in> {COMPILE_END, HOST_TO_DEVICE_TRANSFER, DEVICE_TO_HOST_TRANSFER}"
    and "first_payload evt \<noteq> []" and "type evt \<in> dom (events s)"
  shows "try_body ext s evt = (Some AssertionError, s)"
  using assms
  by (auto simp: try_body_def first_payload_def compile_end_body_def transfer_body_def)

text \<open>
  C1: when the decoding has reached an event of kind \<open>COMPILE_END\<close>,
  \<open>HOST_TO_DEVICE_TRANSFER\<close> or \<open>DEVICE_TO_HOST_TRANSFER\<close> whose payload is not empty,
  and an event of that kind is already recorded, \<^verbatim>\<open>parse_events\<close> raises: the failed
  \<^verbatim>\<open>assert\<close> leaves the \<^verbatim>\<open>try\<close> statement, which catches \<open>UnicodeDecodeError\<close> only.
  With a passing count check the exception is \<open>AssertionError\<close> and the attributes are
  those reached before the event; otherwise the count check has failed first, with the
  failure of \<^verbatim>\<open>assertEqual\<close>.
\<close>

theorem duplicate_singleton_payload_asserts:
  assumes "parse_loop ext fresh pre = (None, s, h)"
    and "FromString ext e = Inr evt"
    and "type evt \<in> {COMPILE_END, HOST_TO_DEVICE_TRANSFER, DEVICE_TO_HOST_TRANSFER}"
    and "first_payload evt \<noteq> []"
    and "type evt \<in> dom (events s)"
  shows "((\<forall>n. assert_len = Some n \<longrightarrow> n = 0 \<or> n = int (length (pre @ e # post))) \<longrightarrow>
           parse_events ext self (pre @ e # post) assert_len msg = (Inl AssertionError, Some s))
         \<and> (fst (parse_events ext self (pre @ e # post) assert_len msg) = Inl AssertionError
            \<or> (\<exists>n. fst (parse_events ext self (pre @ e # post) assert_len msg)
                    = Inl (AssertEqualError n (int (length (pre @ e # post))) msg)))"
proof -
  have t: "try_body ext s evt = (Some AssertionError, s)"
    using assms(3-5) by (rule try_body_duplicate)
  have "parse_event ext (s, h) e = (Some AssertionError, s, count_type h (type evt))"
    by (simp add: parse_event_def assms(2) t)
  then have l: "parse_loop ext fresh (pre @ e # post)
                = (Some AssertionError, s, count_type h (type evt))"
    by (simp add: parse_loop_append assms(1))
  show ?thesis
  proof (cases "\<forall>n. assert_len = Some n \<longrightarrow> n = 0 \<or> n = int (length (pre @ e # post))")
    case True
    then have "parse_events ext self (pre @ e # post) assert_len msg = (Inl AssertionError, Some s)"
      by (simp only: parse_events_count_ok l) simp
    then show ?thesis by simp
  next
    case False
    then obtain n where "assert_len = Some n" "n \<noteq> 0" "n \<noteq> int (length (pre @ e # post))"
      by auto
    then have "fst (parse_events ext self (pre @ e # post) assert_len msg)
               = Inl (AssertEqualError n (int (length (pre @ e # post))) msg)"
      using parse_events_count_mismatch [of n "pre @ e # post" ext self msg] by simp
    with False show ?thesis by blast
  qed
qed

lemma try_body_first_payload_unicode:
  assumes "first_payload evt \<noteq> []"
    and "loads ext (first_payload evt) = Inl UnicodeDecodeError"
    and "type evt \<notin> dom (events s) \<or> type evt = EXECUTE"
  shows "try_body ext s evt = (Some UnicodeDecodeError, s)"
  using assms
  by (cases "type evt")
     (auto simp: try_body_def first_payload_def compile_end_body_def transfer_body_def
        execute_body_def)

text \<open>
  C2, as the code has it: an event whose first payload is not valid UTF-8
  (\<^verbatim>\<open>json.loads\<close> raises \<open>UnicodeDecodeError\<close>) is counted and otherwise skipped, and
  the decoding goes on with the events after it, from the attributes as they were; more
  generally a \<open>UnicodeDecodeError\<close> anywhere in the \<^verbatim>\<open>try\<close> statement (the tensor map or
  the instruction info of a \<open>COMPILE_END\<close>) abandons the rest of that event, keeps what
  was assigned before it, and goes on.
\<close>

theorem unicode_error_skips_event:
  assumes "parse_loop ext fresh pre = (None, s, h)"
    and "FromString ext e = Inr evt"
  shows "(first_payload evt \<noteq> [] \<and> loads ext (first_payload evt) = Inl UnicodeDecodeError
            \<and> (type evt \<notin> dom (events s) \<or> type evt = EXECUTE) \<longrightarrow>
          parse_events ext self (pre @ e # post) None msg =
            (case parse_loop ext (s, count_type h (type evt)) post of
               (None, s', h') \<Rightarrow> (Inr h', Some s')
             | (Some err, s', h') \<Rightarrow> (Inl err, Some s')))
         \<and> (fst (try_body ext s evt) = Some UnicodeDecodeError \<longrightarrow>
          parse_events ext self (pre @ e # post) None msg =
            (case parse_loop ext (snd (try_body ext s evt), count_type h (type evt)) post of
               (None, s', h') \<Rightarrow> (Inr h', Some s')
             | (Some err, s', h') \<Rightarrow> (Inl err, Some s')))"
proof -
  have g: "parse_events ext self (pre @ e # post) None msg =
            (case parse_loop ext (snd (try_body ext s evt), count_type h (type evt)) post of
               (None, s', h') \<Rightarrow> (Inr h', Some s')
             | (Some err, s', h') \<Rightarrow> (Inl err, Some s'))"
    if "fst (try_body ext s evt) = Some UnicodeDecodeError"
  proof -
    have "parse_event ext (s, h) e = (None, snd (try_body ext s evt), count_type h (type evt))"
      using that by (simp add: parse_event_def assms(2) Let_def)
    then have "parse_loop ext fresh (pre @ e # post)
               = parse_loop ext (snd (try_body ext s evt), count_type h (type evt)) post"
      by (simp add: parse_loop_append assms(1))
    then show ?thesis by (simp add: parse_events_def)
  qed
  show ?thesis
  proof (intro conjI impI)
    assume a: "first_payload evt \<noteq> [] \<and> loads ext (first_payload evt) = Inl UnicodeDecodeError
            \<and> (type evt \<notin> dom (events s) \<or> type evt = EXECUTE)"
    then have t: "try_body ext s evt = (Some UnicodeDecodeError, s)"
      by (intro try_body_first_payload_unicode) blast+
    from g [of ] t show "parse_events ext self (pre @ e # post) None msg =
            (case parse_loop ext (s, count_type h (type evt)) post of
               (None, s', h') \<Rightarrow> (Inr h', Some s')
             | (Some err, s', h') \<Rightarrow> (Inl err, Some s'))" by simp
  next
    assume "fst (try_body ext s evt) = Some UnicodeDecodeError"
    then show "parse_events ext self (pre @ e # post) None msg =
            (case parse_loop ext (snd (try_body ext s evt), count_type h (type evt)) post of
               (None, s', h') \<Rightarrow> (Inr h', Some s')
             | (Some err, s', h') \<Rightarrow> (Inl err, Some s'))" by (rule g)
  qed
qed

text \<open>
  C2, as stated, fails: a payload that is text but not JSON makes \<^verbatim>\<open>json.loads\<close> raise
  \<open>ValueError\<close>, which the \<^verbatim>\<open>except UnicodeDecodeError\<close> clause does not catch, so the
  caller gets the exception.
\<close>

theorem malformed_json_payload_raises:
  "parse_events
     \<lparr>FromString = (\<lambda>r. Inr ((no_event EXECUTE)\<lparr>execute_execution_report := ''{''\<rparr>)),
      loads = lookup_or [(''{'', Inl ValueError)] (Inr JNull)\<rparr>
     None [''record''] None [] = (Inl ValueError, Some (fst fresh))"
  by (simp add: parse_events_def parse_event_def try_body_def execute_body_def no_event_def
      lookup_or_def fresh_def)

text \<open>
  C3, at the input where the code departs from it: an expected count of 0 is false, so
  \<^verbatim>\<open>if assert_len:\<close> skips the comparison and a call with \<^verbatim>\<open>assert_len=0\<close> behaves as
  a call without it; one record with an expected count of 0 is decoded with no error.
\<close>

theorem zero_expected_count_is_not_checked:
  "parse_events ext self evs (Some 0) msg = parse_events ext self evs None msg
   \<and> parse_events \<lparr>FromString = (\<lambda>r. Inr (no_event LOAD_ENGINE)), loads = (\<lambda>p. Inl ValueError)\<rparr>
         None [''record''] (Some 0) ''no event expected''
       = (Inr [LOAD_ENGINE \<mapsto> 1], Some (fst fresh))"
  by (simp add: parse_events_def parse_event_def try_body_def no_event_def count_type_def fresh_def)

text \<open>
  C4: on the empty list \<^verbatim>\<open>parse_events\<close> returns the empty histogram and leaves the
  reset attributes; every query that reads the compilation report then raises the
  \<open>KeyError\<close> of the missing \<open>COMPILE_END\<close> entry, and the tile and IPU queries
  cannot be asked of the absent tensor map (\<open>AttributeError\<close>). None returns data.
\<close>

theorem empty_event_list_queries_fail:
  "parse_events ext self [] None msg = (Inr Map.empty, Some (fst fresh))
   \<and> parse_events ext self [] (Some 0) msg = (Inr Map.empty, Some (fst fresh))
   \<and> get_each_tile_memory (Some (fst fresh)) = Inl (KeyError (KEvt COMPILE_END))
   \<and> get_max_tile_memory (Some (fst fresh)) = Inl (KeyError (KEvt COMPILE_END))
   \<and> get_total_tile_memory (Some (fst fresh)) = Inl (KeyError (KEvt COMPILE_END))
   \<and> get_always_live_memory (Some (fst fresh)) = Inl (KeyError (KEvt COMPILE_END))
   \<and> get_vertices (Some (fst fresh)) = Inl (KeyError (KEvt COMPILE_END))
   \<and> get_compute_sets (Some (fst fresh)) = Inl (KeyError (KEvt COMPILE_END))
   \<and> get_num_ipus (Some (fst fresh)) = Inl (KeyError (KEvt COMPILE_END))
   \<and> get_num_tiles (Some (fst fresh)) = Inl (KeyError (KEvt COMPILE_END))
   \<and> get_num_tiles_per_ipu (Some (fst fresh)) = Inl (KeyError (KEvt COMPILE_END))
   \<and> get_first_program_of_type (Some (fst fresh)) program_type = Inl (KeyError (KEvt COMPILE_END))
   \<and> get_program_names_of_type (Some (fst fresh)) program_type = Inl (KeyError (KEvt COMPILE_END))
   \<and> get_program (Some (fst fresh)) i = Inl (KeyError (KEvt COMPILE_END))
   \<and> bind (the_tensor_map (Some (fst fresh))) (\<lambda>tm. tile_ids tm c) = Inl AttributeError
   \<and> bind (the_tensor_map (Some (fst fresh))) (\<lambda>tm. ipu_ids tm c) = Inl AttributeError"
  by (simp add: parse_events_def fresh_def events_getitem_def bind_def
      get_each_tile_memory_def get_max_tile_memory_def get_total_tile_memory_def
      get_always_live_memory_def get_vertices_def get_compute_sets_def get_num_ipus_def
      get_num_tiles_def get_num_tiles_per_ipu_def get_first_program_of_type_def
      get_program_names_of_type_def get_program_def programs_def the_tensor_map_def
      get_tensor_map_def)

text \<open>
  C8: decoding a list again on the object gives the same result and the same
  attributes; the result never depends on the attributes before the call; and whenever
  the count check passes (always when no expected count is given) the attributes after
  the call, hence the result of any query on them, do not depend on the attributes
  before the call either.
\<close>

theorem parse_events_rebuilds_state:
  "parse_events ext (snd (parse_events ext self evs assert_len msg)) evs assert_len msg
     = parse_events ext self evs assert_len msg
   \<and> fst (parse_events ext self evs assert_len msg) = fst (parse_events ext self' evs assert_len msg)
   \<and> ((\<forall>n. assert_len = Some n \<longrightarrow> n = 0 \<or> n = int (length evs)) \<longrightarrow>
        parse_events ext self evs assert_len msg = parse_events ext self' evs assert_len msg)
   \<and> parse_events ext self evs None msg = parse_events ext self' evs None msg'
   \<and> query (snd (parse_events ext self evs None msg))
       = query (snd (parse_events ext self' evs None msg'))"
proof -
  have 3: "(\<forall>n. assert_len = Some n \<longrightarrow> n = 0 \<or> n = int (length evs)) \<longrightarrow>
        parse_events ext self evs assert_len msg = parse_events ext self' evs assert_len msg"
    by (simp add: parse_events_count_ok)
  have 2: "fst (parse_events ext self evs assert_len msg) = fst (parse_events ext self' evs assert_len msg)"
    by (cases assert_len) (auto simp: parse_events_def split: prod.splits option.splits)
  have 1: "parse_events ext (snd (parse_events ext self evs assert_len msg)) evs assert_len msg
     = parse_events ext self evs assert_len msg"
    by (cases assert_len) (auto simp: parse_events_def split: prod.splits option.splits)
  have 4: "parse_events ext self evs None msg = parse_events ext self' evs None msg'"
    by (simp add: parse_events_def)
  from 4 have 5: "query (snd (parse_events ext self evs None msg))
       = query (snd (parse_events ext self' evs None msg'))" by simp
  from 1 2 3 4 5 show ?thesis by blast
qed


section \<open>Properties of the target queries\<close>

lemma int_truediv_exact:
  assumes "n \<noteq> 0" "n dvd a" "\<bar>a\<bar> < 2 ^ 53"
  shows "int_truediv a (PInt n) = Inr (Finite (of_int (a div n)))"
proof -
  from assms(2) obtain k where k: "a = n * k" by (rule dvdE)
  with assms(1) have d: "a div n = k" by simp
  have q: "rat_of_int a / of_int n = of_int k"
    using assms(1) by (simp add: k)
  have "1 \<le> \<bar>n\<bar>" using assms(1) by simp
  then have "1 * \<bar>k\<bar> \<le> \<bar>n\<bar> * \<bar>k\<bar>" by (intro mult_right_mono) simp_all
  then have "\<bar>k\<bar> \<le> \<bar>a\<bar>" by (simp add: k abs_mult)
  with assms(3) have "\<bar>k\<bar> < 2 ^ 53" by linarith
  then have "fl64 (of_int k) = Finite (of_int k)" by (rule fl64_of_int)
  then show ?thesis using assms(1) by (simp add: int_truediv_def q d)
qed

lemma int_mul_float_exact:
  assumes "\<bar>a\<bar> < 2 ^ 53" "\<bar>a * k\<bar> < 2 ^ 53"
  shows "int_mul_float a (Finite (of_int k)) = Inr (Finite (of_int (a * k)))"
proof -
  have 1: "fl64 (of_int a) = Finite (of_int a)" using assms(1) by (rule fl64_of_int)
  have 2: "fl64 (of_int (a * k)) = Finite (of_int (a * k))" using assms(2) by (rule fl64_of_int)
  show ?thesis using 1 2 by (simp add: int_mul_float_def float_of_int_def bind_def)
qed

lemma parse_events_single_compile_end:
  assumes "FromString ext e = Inr evt" and "type evt = COMPILE_END"
    and "compile_end_compilation_report evt \<noteq> []"
    and "loads ext (compile_end_compilation_report evt) = Inr report"
    and "get_num_tiles_per_ipu
           (Some \<lparr>events = [COMPILE_END \<mapsto> report], tensor_map = None,
                  instruction_info = JObject []\<rparr>) = Inr n"
    and "loads ext (compile_end_tensor_map evt) = Inr js_map"
    and "TensorMap_init js_map (PFloat n) = Inr tm"
    and "loads ext (compile_end_instruction_info evt) = Inr info"
  shows "parse_events ext self [e] None msg =
           (Inr [COMPILE_END \<mapsto> 1],
            Some \<lparr>events = [COMPILE_END \<mapsto> report], tensor_map = Some tm,
                  instruction_info = info\<rparr>)"
  using assms
  by (simp add: parse_events_def parse_event_def try_body_def compile_end_body_def fresh_def
      count_type_def)

lemma target_queries:
  assumes "events s COMPILE_END = Some (target_report i t totals)"
  shows "get_num_ipus (Some s) = Inr (JInt i)" "get_num_tiles (Some s) = Inr (JInt t)"
    "get_each_tile_memory (Some s) = Inr (JArray totals)"
  using assms
  by (simp_all add: get_num_ipus_def get_num_tiles_def get_each_tile_memory_def
      events_getitem_def bind_def getitem_str_def target_report_def)

lemma fl64_15_11: "fl64 (15 / 11) = Finite (6141272219141585 / 4503599627370496)"
  using fl64_pos_eval [of 0 "15 / 11" 6141272219141585] by (simp add: power_int_minus)

lemma fl64_11_times: "fl64 (11 * (6141272219141585 / 4503599627370496))
    = Finite (8444249301319679 / 562949953421312)"
  using fl64_pos_eval [of 3 "11 * (6141272219141585 / 4503599627370496)" 8444249301319679]
  by (simp add: power_int_minus)

lemma fl64_11: "fl64 11 = Finite 11"
  using fl64_of_int [of 11] by simp

text \<open>
  C5, as the code has it: \<^verbatim>\<open>get_num_tiles_per_ipu\<close> is the float nearest to the
  quotient of the two integers. When the number of IPUs is not zero and divides the
  number of tiles, and both are below \<open>2 ^ 53\<close> in magnitude, the quotient is exact, the
  product \<^verbatim>\<open>get_num_ipus() * get_num_tiles_per_ipu()\<close> is the number of tiles as a float,
  and its truncation to an integer is \<^verbatim>\<open>get_num_tiles()\<close>.
\<close>

theorem tiles_product_exact_when_divisible:
  assumes "get_num_tiles self = Inr (JInt t)" and "get_num_ipus self = Inr (JInt i)"
    and "i \<noteq> 0" and "i dvd t" and "\<bar>t\<bar> < 2 ^ 53" and "\<bar>i\<bar> < 2 ^ 53"
  shows "get_num_tiles_per_ipu self = Inr (Finite (of_int (t div i)))
         \<and> ipus_times_tiles_per_ipu self = Inr (Finite (of_int t))
         \<and> bind (ipus_times_tiles_per_ipu self) py_int = Inr t"
proof -
  have q: "get_num_tiles_per_ipu self = Inr (Finite (of_int (t div i)))"
    using assms int_truediv_exact [of i t]
    by (simp add: get_num_tiles_per_ipu_def json_truediv_def bind_def as_int_def)
  have "i * (t div i) = t" using assms(4) by simp
  with assms(5,6) have "int_mul_float i (Finite (of_int (t div i))) = Inr (Finite (of_int t))"
    using int_mul_float_exact [of i "t div i"] by simp
  with q have p: "ipus_times_tiles_per_ipu self = Inr (Finite (of_int t))"
    using assms(2) by (simp add: ipus_times_tiles_per_ipu_def bind_def as_int_def)
  have "bind (ipus_times_tiles_per_ipu self) py_int = Inr t"
    by (simp add: p bind_def py_int_def)
  with q p show ?thesis by simp
qed

theorem tiles_product_exact_when_divisible_witness:
  "get_num_tiles (Some \<lparr>events = [COMPILE_END \<mapsto> target_report 2 2432 []], tensor_map = None,
                          instruction_info = JObject []\<rparr>) = Inr (JInt 2432)
   \<and> get_num_tiles_per_ipu (Some \<lparr>events = [COMPILE_END \<mapsto> target_report 2 2432 []],
                          tensor_map = None, instruction_info = JObject []\<rparr>) = Inr (Finite 1216)
   \<and> bind (ipus_times_tiles_per_ipu (Some \<lparr>events = [COMPILE_END \<mapsto> target_report 2 2432 []],
                          tensor_map = None, instruction_info = JObject []\<rparr>)) py_int = Inr 2432"
proof -
  define s where "s = \<lparr>events = [COMPILE_END \<mapsto> target_report 2 2432 []], tensor_map = None,
                          instruction_info = JObject []\<rparr>"
  have 1: "get_num_tiles (Some s) = Inr (JInt 2432)" and 2: "get_num_ipus (Some s) = Inr (JInt 2)"
    using target_queries(1,2) [of s 2 2432 "[]"] by (simp_all add: s_def)
  have 3: "(2::int) \<noteq> 0" "(2::int) dvd 2432" "\<bar>2432::int\<bar> < 2 ^ 53" "\<bar>2::int\<bar> < 2 ^ 53"
    by simp_all
  note t = tiles_product_exact_when_divisible [OF 1 2 3]
  from t have b: "get_num_tiles_per_ipu (Some s) = Inr (Finite 1216)" by simp
  from t have c: "bind (ipus_times_tiles_per_ipu (Some s)) py_int = Inr 2432" by blast
  from 1 b c show ?thesis unfolding s_def by blast
qed

lemma small_tiles_product:
  "parse_events (compile_end_ext (target_report 11 15 []) (JObject [(''mappings'', JObject [])]))
      None [''compile_end''] None []
   = (Inr [COMPILE_END \<mapsto> 1],
      Some \<lparr>events = [COMPILE_END \<mapsto> target_report 11 15 []],
            tensor_map = Some \<lparr>num_tiles_per_ipu =
                                   PFloat (Finite (6141272219141585 / 4503599627370496)),
                                 mappings = []\<rparr>,
            instruction_info = JObject []\<rparr>)
   \<and> get_num_tiles (Some \<lparr>events = [COMPILE_END \<mapsto> target_report 11 15 []],
            tensor_map = Some \<lparr>num_tiles_per_ipu =
                                   PFloat (Finite (6141272219141585 / 4503599627370496)),
                                 mappings = []\<rparr>,
            instruction_info = JObject []\<rparr>) = Inr (JInt 15)
   \<and> bind (ipus_times_tiles_per_ipu (Some \<lparr>events = [COMPILE_END \<mapsto> target_report 11 15 []],
            tensor_map = Some \<lparr>num_tiles_per_ipu =
                                   PFloat (Finite (6141272219141585 / 4503599627370496)),
                                 mappings = []\<rparr>,
            instruction_info = JObject []\<rparr>)) py_int = Inr 14"
proof -
  define s0 where "s0 = \<lparr>events = [COMPILE_END \<mapsto> target_report 11 15 []],
            tensor_map = None, instruction_info = JObject []\<rparr>"
  define s where "s = \<lparr>events = [COMPILE_END \<mapsto> target_report 11 15 []],
            tensor_map = Some \<lparr>num_tiles_per_ipu =
                                   PFloat (Finite (6141272219141585 / 4503599627370496)),
                                 mappings = []\<rparr>,
            instruction_info = JObject []\<rparr>"
  have q0: "get_num_tiles_per_ipu (Some s0) = Inr (Finite (6141272219141585 / 4503599627370496))"
    using target_queries(1,2) [of s0 11 15 "[]"] fl64_15_11
    by (simp add: s0_def get_num_tiles_per_ipu_def json_truediv_def bind_def as_int_def
        int_truediv_def)
  have q: "get_num_tiles_per_ipu (Some s) = Inr (Finite (6141272219141585 / 4503599627370496))"
    using target_queries(1,2) [of s 11 15 "[]"] fl64_15_11
    by (simp add: s_def get_num_tiles_per_ipu_def json_truediv_def bind_def as_int_def
        int_truediv_def)
  define ext where
    "ext = compile_end_ext (target_report 11 15 []) (JObject [(''mappings'', JObject [])])"
  define evt where "evt = compile_end_event ''report'' ''tensor_map'' ''info''"
  have e1: "FromString ext ''compile_end'' = Inr evt"
    by (simp add: ext_def evt_def compile_end_ext_def lookup_or_def)
  have e2: "type evt = COMPILE_END" and e3: "compile_end_compilation_report evt \<noteq> []"
    by (simp_all add: evt_def compile_end_event_def no_event_def)
  have e4: "loads ext (compile_end_compilation_report evt) = Inr (target_report 11 15 [])"
    and e6: "loads ext (compile_end_tensor_map evt) = Inr (JObject [(''mappings'', JObject [])])"
    and e8: "loads ext (compile_end_instruction_info evt) = Inr (JObject [])"
    by (simp_all add: ext_def evt_def compile_end_ext_def lookup_or_def compile_end_event_def
        no_event_def)
  have e7: "TensorMap_init (JObject [(''mappings'', JObject [])])
              (PFloat (Finite (6141272219141585 / 4503599627370496)))
            = Inr \<lparr>num_tiles_per_ipu = PFloat (Finite (6141272219141585 / 4503599627370496)),
                   mappings = []\<rparr>"
    by (simp add: TensorMap_init_def getitem_str_def bind_def py_items_def)
  have 1: "parse_events ext None [''compile_end''] None [] = (Inr [COMPILE_END \<mapsto> 1], Some s)"
    unfolding s_def
    by (rule parse_events_single_compile_end [OF e1 e2 e3 e4 q0 [unfolded s0_def] e6 e7 e8])
  have 2: "get_num_tiles (Some s) = Inr (JInt 15)"
    using target_queries(2) [of s 11 15 "[]"] by (simp add: s_def)
  have fl: "\<lfloor>8444249301319679 / 562949953421312 :: rat\<rfloor> = 14"
    by (rule floor_unique) simp_all
  have 3: "bind (ipus_times_tiles_per_ipu (Some s)) py_int = Inr 14"
    using target_queries(1) [of s 11 15 "[]"] q fl64_11 fl64_11_times fl
    by (simp add: s_def ipus_times_tiles_per_ipu_def bind_def as_int_def int_mul_float_def
        float_of_int_def py_int_def)
  from 1 2 3 show ?thesis unfolding s_def ext_def by simp
qed

lemma fl64_2_60_1000: "fl64 1152921504606847976 = Finite 1152921504606848000"
  using fl64_pos_eval [of 60 1152921504606847976 4503599627370500] by simp

lemma fl64_2_60_1024: "fl64 1152921504606848000 = Finite 1152921504606848000"
  using fl64_pos_eval [of 60 1152921504606848000 4503599627370500] by simp

lemma fl64_1: "fl64 1 = Finite 1"
  using fl64_of_int [of 1] by simp

lemma large_tiles_product:
  "get_num_tiles (Some \<lparr>events = [COMPILE_END \<mapsto> target_report 1 1152921504606847976 []],
                          tensor_map = None, instruction_info = JObject []\<rparr>)
     = Inr (JInt 1152921504606847976)
   \<and> bind (ipus_times_tiles_per_ipu
              (Some \<lparr>events = [COMPILE_END \<mapsto> target_report 1 1152921504606847976 []],
                     tensor_map = None, instruction_info = JObject []\<rparr>)) py_int
     = Inr 1152921504606848000"
proof -
  define s where "s = \<lparr>events = [COMPILE_END \<mapsto> target_report 1 1152921504606847976 []],
                          tensor_map = None, instruction_info = JObject []\<rparr>"
  have 1: "get_num_ipus (Some s) = Inr (JInt 1)"
    and 2: "get_num_tiles (Some s) = Inr (JInt 1152921504606847976)"
    using target_queries(1,2) [of s 1 1152921504606847976 "[]"] by (simp_all add: s_def)
  have q: "get_num_tiles_per_ipu (Some s) = Inr (Finite 1152921504606848000)"
    using 1 2 fl64_2_60_1000
    by (simp add: get_num_tiles_per_ipu_def json_truediv_def bind_def as_int_def int_truediv_def)
  have 3: "bind (ipus_times_tiles_per_ipu (Some s)) py_int = Inr 1152921504606848000"
    using 1 q fl64_1 fl64_2_60_1024
    by (simp add: ipus_times_tiles_per_ipu_def bind_def as_int_def int_mul_float_def
        float_of_int_def py_int_def)
  from 2 3 show ?thesis unfolding s_def by blast
qed

text \<open>
  C5, as stated, fails in two ways. When the number of IPUs does not divide the number of
  tiles the quotient is rounded: for the one \<open>COMPILE_END\<close> event whose report has 15
  tiles on 11 IPUs the product is the float just below 15, and its truncation is 14. And
  beyond \<open>2 ^ 53\<close> an integer need not be a float: with \<open>2 ^ 60 + 1000\<close> tiles on one
  IPU the product is \<open>2 ^ 60 + 1024\<close>.
\<close>

theorem tiles_product_truncates_below:
  "parse_events (compile_end_ext (target_report 11 15 []) (JObject [(''mappings'', JObject [])]))
      None [''compile_end''] None []
   = (Inr [COMPILE_END \<mapsto> 1],
      Some \<lparr>events = [COMPILE_END \<mapsto> target_report 11 15 []],
            tensor_map = Some \<lparr>num_tiles_per_ipu =
                                   PFloat (Finite (6141272219141585 / 4503599627370496)),
                                 mappings = []\<rparr>,
            instruction_info = JObject []\<rparr>)
   \<and> get_num_tiles (Some \<lparr>events = [COMPILE_END \<mapsto> target_report 11 15 []],
            tensor_map = Some \<lparr>num_tiles_per_ipu =
                                   PFloat (Finite (6141272219141585 / 4503599627370496)),
                                 mappings = []\<rparr>,
            instruction_info = JObject []\<rparr>) = Inr (JInt 15)
   \<and> bind (ipus_times_tiles_per_ipu (Some \<lparr>events = [COMPILE_END \<mapsto> target_report 11 15 []],
            tensor_map = Some \<lparr>num_tiles_per_ipu =
                                   PFloat (Finite (6141272219141585 / 4503599627370496)),
                                 mappings = []\<rparr>,
            instruction_info = JObject []\<rparr>)) py_int = Inr 14
   \<and> get_num_tiles (Some \<lparr>events = [COMPILE_END \<mapsto> target_report 1 1152921504606847976 []],
                          tensor_map = None, instruction_info = JObject []\<rparr>)
     = Inr (JInt 1152921504606847976)
   \<and> bind (ipus_times_tiles_per_ipu
              (Some \<lparr>events = [COMPILE_END \<mapsto> target_report 1 1152921504606847976 []],
                     tensor_map = None, instruction_info = JObject []\<rparr>)) py_int
     = Inr 1152921504606848000"
  using small_tiles_product large_tiles_product by blast

text \<open>
  C6: a single \<open>COMPILE_END\<close> event whose report declares 2 IPUs, 4 tiles and the
  per-tile totals 10, 20, 30, 40 (with a tensor map and an instruction info that decode)
  is decoded without error; afterwards \<^verbatim>\<open>get_num_ipus()\<close> is 2,
  \<^verbatim>\<open>get_total_tile_memory()\<close> is 100, \<^verbatim>\<open>get_max_tile_memory()\<close> is 40, and there are 2
  tiles per IPU.
\<close>

theorem compile_end_scenario:
  assumes "FromString ext e = Inr evt" and "type evt = COMPILE_END"
    and "compile_end_compilation_report evt \<noteq> []"
    and "loads ext (compile_end_compilation_report evt) = Inr report"
    and "getitem_str report ''target'' = Inr target"
    and "getitem_str target ''numIPUs'' = Inr (JInt 2)"
    and "getitem_str target ''numTiles'' = Inr (JInt 4)"
    and "getitem_str report ''memory'' = Inr memory"
    and "getitem_str memory ''byTile'' = Inr by_tile"
    and "getitem_str by_tile ''total'' = Inr (JArray [JInt 10, JInt 20, JInt 30, JInt 40])"
    and "loads ext (compile_end_tensor_map evt) = Inr js_map"
    and "TensorMap_init js_map (PFloat (Finite 2)) = Inr tm"
    and "loads ext (compile_end_instruction_info evt) = Inr info"
  shows "parse_events ext self [e] None msg =
           (Inr [COMPILE_END \<mapsto> 1],
            Some \<lparr>events = [COMPILE_END \<mapsto> report], tensor_map = Some tm,
                  instruction_info = info\<rparr>)
         \<and> get_num_ipus (snd (parse_events ext self [e] None msg)) = Inr (JInt 2)
         \<and> get_total_tile_memory (snd (parse_events ext self [e] None msg)) = Inr 100
         \<and> get_max_tile_memory (snd (parse_events ext self [e] None msg)) = Inr (JInt 40)
         \<and> get_num_tiles_per_ipu (snd (parse_events ext self [e] None msg)) = Inr (Finite 2)"
proof -
  define s0 where "s0 = \<lparr>events = [COMPILE_END \<mapsto> report], tensor_map = None,
                  instruction_info = JObject []\<rparr>"
  define s where "s = \<lparr>events = [COMPILE_END \<mapsto> report], tensor_map = Some tm,
                  instruction_info = info\<rparr>"
  have d: "int_truediv 4 (PInt 2) = Inr (Finite 2)"
    using int_truediv_exact [of 2 4] by simp
  have n: "get_num_tiles_per_ipu (Some x) = Inr (Finite 2)"
    if "events x COMPILE_END = Some report" for x
    using that assms(5-7) d
    by (simp add: get_num_tiles_per_ipu_def get_num_tiles_def get_num_ipus_def
        events_getitem_def bind_def json_truediv_def as_int_def)
  have p: "parse_events ext self [e] None msg = (Inr [COMPILE_END \<mapsto> 1], Some s)"
    unfolding s_def
    by (rule parse_events_single_compile_end
          [OF assms(1-4) n [of s0, unfolded s0_def] assms(11-13)]) simp
  have i: "get_num_ipus (Some s) = Inr (JInt 2)"
    using assms(5,6) by (simp add: s_def get_num_ipus_def events_getitem_def bind_def)
  have m: "get_each_tile_memory (Some s) = Inr (JArray [JInt 10, JInt 20, JInt 30, JInt 40])"
    using assms(8-10) by (simp add: s_def get_each_tile_memory_def events_getitem_def bind_def)
  have t: "get_total_tile_memory (Some s) = Inr 100"
    by (simp add: get_total_tile_memory_def m bind_def py_sum_def py_iter_def as_int_def)
  have x: "get_max_tile_memory (Some s) = Inr (JInt 40)"
    by (simp add: get_max_tile_memory_def m bind_def py_max_def py_iter_def as_int_def)
  have q: "get_num_tiles_per_ipu (Some s) = Inr (Finite 2)"
    by (rule n) (simp add: s_def)
  from p i t x q show ?thesis by (simp add: s_def)
qed

theorem compile_end_scenario_witness:
  "parse_events
     (compile_end_ext (target_report 2 4 [JInt 10, JInt 20, JInt 30, JInt 40])
        (JObject [(''mappings'', JObject [(''cluster_0'',
           JArray [JArray [JInt 7, JInt 0, JArray [JInt 8], JString ''float'', JInt 0, JInt 1,
                           JInt 8, JArray [JArray [JInt 0, JInt 4], JArray [JInt 3, JInt 4]]]])])]))
     None [''compile_end''] None []
   = (Inr [COMPILE_END \<mapsto> 1],
      Some \<lparr>events = [COMPILE_END \<mapsto> target_report 2 4 [JInt 10, JInt 20, JInt 30, JInt 40]],
            tensor_map = Some \<lparr>num_tiles_per_ipu = PFloat (Finite 2),
              mappings = [(''cluster_0'',
                [\<lparr>inst = JInt 7, index = JInt 0, shape = JArray [JInt 8], dtype = JString ''float'',
                  has_constant = False, has_aliases = True, num_elements = JInt 8,
                  tiles = [\<lparr>tile = JInt 0, tile_num_elements = JInt 4\<rparr>,
                           \<lparr>tile = JInt 3, tile_num_elements = JInt 4\<rparr>]\<rparr>])]\<rparr>,
            instruction_info = JObject []\<rparr>)
   \<and> get_num_ipus (snd (parse_events
     (compile_end_ext (target_report 2 4 [JInt 10, JInt 20, JInt 30, JInt 40])
        (JObject [(''mappings'', JObject [(''cluster_0'',
           JArray [JArray [JInt 7, JInt 0, JArray [JInt 8], JString ''float'', JInt 0, JInt 1,
                           JInt 8, JArray [JArray [JInt 0, JInt 4], JArray [JInt 3, JInt 4]]]])])]))
     None [''compile_end''] None [])) = Inr (JInt 2)
   \<and> get_total_tile_memory (snd (parse_events
     (compile_end_ext (target_report 2 4 [JInt 10, JInt 20, JInt 30, JInt 40])
        (JObject [(''mappings'', JObject [(''cluster_0'',
           JArray [JArray [JInt 7, JInt 0, JArray [JInt 8], JString ''float'', JInt 0, JInt 1,
                           JInt 8, JArray [JArray [JInt 0, JInt 4], JArray [JInt 3, JInt 4]]]])])]))
     None [''compile_end''] None [])) = Inr 100
   \<and> get_max_tile_memory (snd (parse_events
     (compile_end_ext (target_report 2 4 [JInt 10, JInt 20, JInt 30, JInt 40])
        (JObject [(''mappings'', JObject [(''cluster_0'',
           JArray [JArray [JInt 7, JInt 0, JArray [JInt 8], JString ''float'', JInt 0, JInt 1,
                           JInt 8, JArray [JArray [JInt 0, JInt 4], JArray [JInt 3, JInt 4]]]])])]))
     None [''compile_end''] None [])) = Inr (JInt 40)"
proof -
  define js_map where "js_map = JObject [(''mappings'', JObject [(''cluster_0'',
           JArray [JArray [JInt 7, JInt 0, JArray [JInt 8], JString ''float'', JInt 0, JInt 1,
                           JInt 8, JArray [JArray [JInt 0, JInt 4], JArray [JInt 3, JInt 4]]]])])]"
  define report where "report = target_report 2 4 [JInt 10, JInt 20, JInt 30, JInt 40]"
  define ext where "ext = compile_end_ext report js_map"
  define evt where "evt = compile_end_event ''report'' ''tensor_map'' ''info''"
  define tm where "tm = \<lparr>num_tiles_per_ipu = PFloat (Finite 2),
              mappings = [(''cluster_0'',
                [\<lparr>inst = JInt 7, index = JInt 0, shape = JArray [JInt 8], dtype = JString ''float'',
                  has_constant = False, has_aliases = True, num_elements = JInt 8,
                  tiles = [\<lparr>tile = JInt 0, tile_num_elements = JInt 4\<rparr>,
                           \<lparr>tile = JInt 3, tile_num_elements = JInt 4\<rparr>]\<rparr>])]\<rparr>"
  have e1: "FromString ext ''compile_end'' = Inr evt"
    by (simp add: ext_def evt_def compile_end_ext_def lookup_or_def)
  have e2: "type evt = COMPILE_END" and e3: "compile_end_compilation_report evt \<noteq> []"
    by (simp_all add: evt_def compile_end_event_def no_event_def)
  have e4: "loads ext (compile_end_compilation_report evt) = Inr report"
    and e11: "loads ext (compile_end_tensor_map evt) = Inr js_map"
    and e13: "loads ext (compile_end_instruction_info evt) = Inr (JObject [])"
    by (simp_all add: ext_def evt_def compile_end_ext_def lookup_or_def compile_end_event_def
        no_event_def)
  have e5: "getitem_str report ''target'' = Inr (JObject [(''numIPUs'', JInt 2), (''numTiles'', JInt 4)])"
    and e8: "getitem_str report ''memory''
             = Inr (JObject [(''byTile'', JObject [(''total'', JArray [JInt 10, JInt 20, JInt 30, JInt 40])])])"
    by (simp_all add: report_def target_report_def getitem_str_def)
  have e6: "getitem_str (JObject [(''numIPUs'', JInt 2), (''numTiles'', JInt 4)]) ''numIPUs'' = Inr (JInt 2)"
    and e7: "getitem_str (JObject [(''numIPUs'', JInt 2), (''numTiles'', JInt 4)]) ''numTiles'' = Inr (JInt 4)"
    and e9: "getitem_str (JObject [(''byTile'', JObject [(''total'', JArray [JInt 10, JInt 20, JInt 30, JInt 40])])]) ''byTile''
             = Inr (JObject [(''total'', JArray [JInt 10, JInt 20, JInt 30, JInt 40])])"
    and e10: "getitem_str (JObject [(''total'', JArray [JInt 10, JInt 20, JInt 30, JInt 40])]) ''total''
             = Inr (JArray [JInt 10, JInt 20, JInt 30, JInt 40])"
    by (simp_all add: getitem_str_def)
  have e12: "TensorMap_init js_map (PFloat (Finite 2)) = Inr tm"
    by (simp add: js_map_def tm_def TensorMap_init_def Tensor_init_def Tile_init_def
        getitem_str_def getitem_int_def list_getitem_def bind_def py_items_def py_iter_def
        py_len_def py_bool_def)
  from compile_end_scenario [OF e1 e2 e3 e4 e5 e6 e7 e8 e9 e10 e11 e12 e13, of None "[]"]
  have "parse_events ext None [''compile_end''] None []
          = (Inr [COMPILE_END \<mapsto> 1],
             Some \<lparr>events = [COMPILE_END \<mapsto> report], tensor_map = Some tm,
                   instruction_info = JObject []\<rparr>)
        \<and> get_num_ipus (snd (parse_events ext None [''compile_end''] None [])) = Inr (JInt 2)
        \<and> get_total_tile_memory (snd (parse_events ext None [''compile_end''] None [])) = Inr 100
        \<and> get_max_tile_memory (snd (parse_events ext None [''compile_end''] None [])) = Inr (JInt 40)"
    by blast
  then show ?thesis unfolding ext_def report_def js_map_def tm_def .
qed


section \<open>Properties of the tensor map\<close>

lemma bind_eq_Inr: "bind m f = Inr y \<longleftrightarrow> (\<exists>x. m = Inr x \<and> f x = Inr y)"
  by (cases m) (simp_all add: bind_def)

lemma mapM_cong: "(\<And>x. x \<in> set xs \<Longrightarrow> f x = g x) \<Longrightarrow> mapM f xs = mapM g xs"
proof (induction xs)
  case Nil
  show ?case by simp
next
  case (Cons a xs)
  have "f a = g a" by (rule Cons.prems) simp
  moreover have "mapM f xs = mapM g xs" by (rule Cons.IH, rule Cons.prems) simp
  ultimately show ?case by simp
qed

lemma mapM_set:
  "mapM f xs = Inr ys \<Longrightarrow> set ys = {k. \<exists>v\<in>set xs. f v = Inr k}"
proof (induction xs arbitrary: ys)
  case Nil
  then show ?case by simp
next
  case (Cons x xs)
  from Cons.prems obtain y ys' where y: "f x = Inr y" and ys': "mapM f xs = Inr ys'"
    and e: "ys = y # ys'"
    unfolding mapM.simps bind_eq_Inr by blast
  have "set ys' = {k. \<exists>v\<in>set xs. f v = Inr k}" using ys' by (rule Cons.IH)
  with y e show ?case by auto
qed

lemma set_add_subset: "set_add ids v = Inr ids1 \<Longrightarrow> set ids1 \<subseteq> insert v (set ids)"
  by (cases "py_hashable v"; cases "list_ex (py_eq v) ids") (auto simp: set_add_def)

lemma set_update_subset: "set_update ids vs = Inr ids' \<Longrightarrow> set ids' \<subseteq> set ids \<union> set vs"
proof (induction vs arbitrary: ids)
  case Nil
  then show ?case by simp
next
  case (Cons v vs)
  from Cons.prems obtain ids1 where 1: "set_add ids v = Inr ids1"
    and 2: "set_update ids1 vs = Inr ids'"
    unfolding set_update.simps bind_eq_Inr by blast
  have a: "set ids1 \<subseteq> insert v (set ids)" using 1 by (rule set_add_subset)
  have b: "set ids' \<subseteq> set ids1 \<union> set vs" using 2 by (rule Cons.IH)
  from a b show ?case by auto
qed

lemma tensors_tile_ids_subset:
  "tensors_tile_ids ids ts = Inr ids' \<Longrightarrow>
   set ids' \<subseteq> set ids \<union> (\<Union>t\<in>set ts. tile ` set (tiles t))"
proof (induction ts arbitrary: ids)
  case Nil
  then show ?case by simp
next
  case (Cons t ts)
  from Cons.prems obtain new ids1 where 1: "Tensor_tile_ids t = Inr new"
    and 2: "set_update ids new = Inr ids1" and 3: "tensors_tile_ids ids1 ts = Inr ids'"
    unfolding tensors_tile_ids.simps bind_eq_Inr by blast
  from 1 have a: "set new \<subseteq> tile ` set (tiles t)"
    using set_update_subset [of "[]" "map tile (tiles t)" new] by (simp add: Tensor_tile_ids_def)
  have b: "set ids1 \<subseteq> set ids \<union> set new" using 2 by (rule set_update_subset)
  have c: "set ids' \<subseteq> set ids1 \<union> (\<Union>t\<in>set ts. tile ` set (tiles t))"
    using 3 by (rule Cons.IH)
  show ?case
  proof
    fix v assume "v \<in> set ids'"
    with c have "v \<in> set ids1 \<or> v \<in> (\<Union>t\<in>set ts. tile ` set (tiles t))" by blast
    with a b have "v \<in> set ids \<or> v \<in> tile ` set (tiles t)
                    \<or> v \<in> (\<Union>t\<in>set ts. tile ` set (tiles t))" by blast
    then show "v \<in> set ids \<union> (\<Union>t\<in>set (t # ts). tile ` set (tiles t))" by auto
  qed
qed

lemma computations_tile_ids_subset:
  "computations_tile_ids tm ids cs = Inr ids' \<Longrightarrow>
   set ids' \<subseteq> set ids \<union> (\<Union>m\<in>set (mappings tm). \<Union>t\<in>set (snd m). tile ` set (tiles t))"
proof (induction cs arbitrary: ids)
  case Nil
  then show ?case by simp
next
  case (Cons c cs)
  let ?all = "\<Union>m\<in>set (mappings tm). \<Union>t\<in>set (snd m). tile ` set (tiles t)"
  from Cons.prems obtain ts ids1 where 1: "mappings_getitem tm c = Inr ts"
    and 2: "tensors_tile_ids ids ts = Inr ids1" and 3: "computations_tile_ids tm ids1 cs = Inr ids'"
    unfolding computations_tile_ids.simps bind_eq_Inr by blast
  from 1 have "map_of (mappings tm) c = Some ts"
    by (cases "map_of (mappings tm) c") (simp_all add: mappings_getitem_def)
  then have m: "(c, ts) \<in> set (mappings tm)" by (rule map_of_SomeD)
  have a: "(\<Union>t\<in>set ts. tile ` set (tiles t)) \<subseteq> ?all"
  proof
    fix v assume "v \<in> (\<Union>t\<in>set ts. tile ` set (tiles t))"
    then obtain t where t: "t \<in> set ts" "v \<in> tile ` set (tiles t)" by (rule UN_E)
    from t(1) have "t \<in> set (snd (c, ts))" by simp
    then have "v \<in> (\<Union>t\<in>set (snd (c, ts)). tile ` set (tiles t))"
      using t(2) by (rule UN_I)
    with m show "v \<in> ?all" by (rule UN_I)
  qed
  have b: "set ids1 \<subseteq> set ids \<union> (\<Union>t\<in>set ts. tile ` set (tiles t))"
    using 2 by (rule tensors_tile_ids_subset)
  have c: "set ids' \<subseteq> set ids1 \<union> ?all" using 3 by (rule Cons.IH)
  show ?case
  proof
    fix v assume "v \<in> set ids'"
    with c have "v \<in> set ids1 \<or> v \<in> ?all" by (simp add: subset_iff)
    then show "v \<in> set ids \<union> ?all"
    proof
      assume "v \<in> set ids1"
      with b have "v \<in> set ids \<or> v \<in> (\<Union>t\<in>set ts. tile ` set (tiles t))"
        by (simp add: subset_iff)
      with a show ?thesis by (auto simp only: subset_iff Un_iff)
    next
      assume "v \<in> ?all"
      then show ?thesis by (simp only: Un_iff simp_thms)
    qed
  qed
qed

lemma tile_ids_nonneg:
  assumes "nonneg_tile_ids tm" and "tile_ids tm c = Inr ids" and "v \<in> set ids"
  shows "\<exists>k\<ge>0. v = JInt k"
proof -
  from assms(2) have "set ids \<subseteq> set [] \<union> (\<Union>m\<in>set (mappings tm). \<Union>t\<in>set (snd m). tile ` set (tiles t))"
    unfolding tile_ids_def Let_def by (rule computations_tile_ids_subset)
  with assms(3) have "v \<in> (\<Union>m\<in>set (mappings tm). \<Union>t\<in>set (snd m). tile ` set (tiles t))"
    by (simp add: subset_iff)
  then obtain m where m: "m \<in> set (mappings tm)"
    and "v \<in> (\<Union>t\<in>set (snd m). tile ` set (tiles t))" by (rule UN_E)
  then obtain t where t: "t \<in> set (snd m)" and "v \<in> tile ` set (tiles t)" by (elim UN_E)
  then obtain tl where tl: "tl \<in> set (tiles t)" and v: "v = tile tl" by (elim imageE)
  from assms(1) m have "list_all (\<lambda>t. list_all (\<lambda>tl. case tile tl of JInt k \<Rightarrow> 0 \<le> k | _ \<Rightarrow> False)
                                    (tiles t)) (snd m)"
    by (simp add: nonneg_tile_ids_def list_all_iff)
  with t have "list_all (\<lambda>tl. case tile tl of JInt k \<Rightarrow> 0 \<le> k | _ \<Rightarrow> False) (tiles t)"
    by (simp add: list_all_iff)
  with tl have "case tile tl of JInt k \<Rightarrow> 0 \<le> k | _ \<Rightarrow> False"
    by (simp add: list_all_iff)
  with v show ?thesis by (cases "tile tl") simp_all
qed

lemma int_after_nonneg:
  assumes "0 \<le> x"
  shows "bind (Inr (fl64 x)) py_int = bind (Inr (fl64 x)) py_floor"
proof -
  from fl64_nonneg [OF assms] consider "fl64 x = PInf" | r where "0 \<le> r" "fl64 x = Finite r"
    by blast
  then show ?thesis
  proof cases
    case 1
    then show ?thesis by (simp add: bind_def py_int_def py_floor_def)
  next
    case 2
    then show ?thesis by (simp add: bind_def py_int_def py_floor_def)
  qed
qed

lemma int_of_floor_nonneg:
  assumes "0 \<le> t" and "nonneg_num n"
  shows "bind (int_truediv t n) py_int = bind (int_truediv t n) py_floor"
proof (cases n)
  case (PInt m)
  show ?thesis
  proof (cases "m = 0")
    case True
    with PInt show ?thesis by (simp add: int_truediv_def bind_def)
  next
    case False
    with PInt assms(2) have "0 < m" by (simp add: nonneg_num_def)
    with assms(1) have q: "0 \<le> rat_of_int t / of_int m" by simp
    from fl64_nonneg [OF q] consider "fl64 (rat_of_int t / of_int m) = PInf"
      | r where "0 \<le> r" "fl64 (rat_of_int t / of_int m) = Finite r" by blast
    then show ?thesis
    proof cases
      case 1
      with PInt False show ?thesis by (simp add: int_truediv_def bind_def)
    next
      case 2
      with PInt False show ?thesis
        by (simp add: int_truediv_def bind_def py_int_def py_floor_def)
    qed
  qed
next
  case (PFloat y)
  from assms(1) have "0 \<le> rat_of_int t" by simp
  from fl64_nonneg [OF this] consider "fl64 (of_int t) = PInf"
    | x where "0 \<le> x" "fl64 (of_int t) = Finite x" by blast
  then show ?thesis
  proof cases
    case 1
    with PFloat show ?thesis by (simp add: int_truediv_def bind_def float_of_int_def)
  next
    case 2
    show ?thesis
    proof (cases y)
      case (Finite d)
      show ?thesis
      proof (cases "d = 0")
        case True
        with 2 PFloat Finite show ?thesis by (simp add: int_truediv_def bind_def float_of_int_def)
      next
        case False
        with PFloat Finite assms(2) have "0 < d" by (simp add: nonneg_num_def)
        with 2 have "0 \<le> x / d" by simp
        from int_after_nonneg [OF this] 2 PFloat Finite False show ?thesis
          by (simp add: int_truediv_def bind_def float_of_int_def)
      qed
    next
      case PInf
      with 2 PFloat show ?thesis
        by (simp add: int_truediv_def bind_def float_of_int_def py_int_def py_floor_def)
    next
      case NInf
      with PFloat assms(2) show ?thesis by (simp add: nonneg_num_def)
    next
      case NaN
      with PFloat assms(2) show ?thesis by (simp add: nonneg_num_def)
    qed
  qed
qed

lemma TensorMap_init_num_tiles_per_ipu:
  "TensorMap_init js_map n = Inr tm \<Longrightarrow> num_tiles_per_ipu tm = n"
  unfolding TensorMap_init_def bind_eq_Inr by auto

text \<open>
  C9, as the code has it: for a tensor map whose tile ids are non-negative integers and
  whose \<^verbatim>\<open>num_tiles_per_ipu\<close> is not negative, \<^verbatim>\<open>ipu_ids\<close> does what the floor of the
  floating-point quotient \<^verbatim>\<open>tile_id / num_tiles_per_ipu\<close> does, for every selection: it
  raises when that raises (a name that is not in the map, a division by zero, an
  overflow), and when it returns it returns exactly the set of those floors over the tile
  ids of the selection. The quotient is the true division by the stored value, never an
  integer division.
\<close>

theorem ipu_ids_is_floor_of_quotient:
  assumes "nonneg_tile_ids tm" and "nonneg_num (num_tiles_per_ipu tm)"
  shows "ipu_ids tm c = ipu_ids_floor tm c
         \<and> (\<forall>s. ipu_ids tm c = Inr s \<longrightarrow>
              (\<exists>ids. tile_ids tm c = Inr ids
                 \<and> s = {k. \<exists>v\<in>set ids. floor_ipu_of_tile (num_tiles_per_ipu tm) v = Inr k}))"
proof -
  have eq: "ipu_ids tm c = ipu_ids_floor tm c"
  proof (cases "tile_ids tm c")
    case (Inl e)
    then show ?thesis by (simp add: ipu_ids_def ipu_ids_floor_def bind_def)
  next
    case (Inr ids)
    have "mapM (ipu_of_tile (num_tiles_per_ipu tm)) ids
          = mapM (floor_ipu_of_tile (num_tiles_per_ipu tm)) ids"
    proof (rule mapM_cong)
      fix v assume "v \<in> set ids"
      with assms(1) Inr obtain k where k: "0 \<le> k" "v = JInt k"
        using tile_ids_nonneg by blast
      from int_of_floor_nonneg [OF k(1) assms(2)] k(2)
      show "ipu_of_tile (num_tiles_per_ipu tm) v = floor_ipu_of_tile (num_tiles_per_ipu tm) v"
        by (simp add: ipu_of_tile_def floor_ipu_of_tile_def as_int_def bind_def)
    qed
    with Inr show ?thesis by (simp add: ipu_ids_def ipu_ids_floor_def bind_def)
  qed
  have "\<exists>ids. tile_ids tm c = Inr ids
          \<and> s = {k. \<exists>v\<in>set ids. floor_ipu_of_tile (num_tiles_per_ipu tm) v = Inr k}"
    if "ipu_ids tm c = Inr s" for s
  proof -
    from that eq have f: "ipu_ids_floor tm c = Inr s" by simp
    then obtain ids ys where 1: "tile_ids tm c = Inr ids"
      and 2: "mapM (floor_ipu_of_tile (num_tiles_per_ipu tm)) ids = Inr ys" and 3: "s = set ys"
      by (auto simp: ipu_ids_floor_def bind_def split: sum.splits)
    from mapM_set [OF 2] 1 3 show ?thesis by simp
  qed
  with eq show ?thesis by blast
qed

lemma fl64_half: "fl64 (1 / 2) = Finite (1 / 2)"
  using fl64_pos_eval [of "- 1" "1 / 2" 4503599627370496] by (simp add: power_int_minus)

lemma fl64_minus_half: "fl64 (- (1 / 2)) = Finite (- (1 / 2))"
  by (simp only: fl64_minus fl64_half pyfloat.case)

lemma fl64_three_halves: "fl64 (3 / 2) = Finite (3 / 2)"
  using fl64_pos_eval [of 0 "3 / 2" 6755399441055744] by (simp add: power_int_minus)

lemma float_of_small_int: "float_of_int 0 = Inr 0" "float_of_int 1 = Inr 1" "float_of_int 3 = Inr 3"
  using fl64_of_int [of 0] fl64_of_int [of 1] fl64_of_int [of 3]
  by (simp_all add: float_of_int_def)


theorem ipu_ids_is_floor_of_quotient_witness:
  "nonneg_num (PFloat (Finite 2))
   \<and> ipu_ids
     \<lparr>num_tiles_per_ipu = PFloat (Finite 2),
      mappings = [(''cluster_0'',
        [\<lparr>inst = JInt 7, index = JInt 0, shape = JArray [JInt 8], dtype = JString ''float'',
          has_constant = False, has_aliases = True, num_elements = JInt 8,
          tiles = [\<lparr>tile = JInt 0, tile_num_elements = JInt 4\<rparr>,
                   \<lparr>tile = JInt 3, tile_num_elements = JInt 4\<rparr>]\<rparr>])]\<rparr> (Name ''cluster_0'')
     = Inr {0, 1}"
proof -
  define tm where "tm = \<lparr>num_tiles_per_ipu = PFloat (Finite 2),
      mappings = [(''cluster_0'',
        [\<lparr>inst = JInt 7, index = JInt 0, shape = JArray [JInt 8], dtype = JString ''float'',
          has_constant = False, has_aliases = True, num_elements = JInt 8,
          tiles = [\<lparr>tile = JInt 0, tile_num_elements = JInt 4\<rparr>,
                   \<lparr>tile = JInt 3, tile_num_elements = JInt 4\<rparr>]\<rparr>])]\<rparr>"
  have 1: "nonneg_tile_ids tm" by (simp add: tm_def nonneg_tile_ids_def)
  have 2: "nonneg_num (num_tiles_per_ipu tm)" by (simp add: tm_def nonneg_num_def)
  have 3: "tile_ids tm (Name ''cluster_0'') = Inr [JInt 0, JInt 3]"
    by (simp add: tm_def tile_ids_def mappings_getitem_def bind_def
        Tensor_tile_ids_def set_add_def py_hashable_def py_eq_def as_int_def)
  have a: "int_truediv 0 (PFloat (Finite 2)) = Inr (Finite 0)"
    by (simp add: int_truediv_def float_of_small_int bind_def fl64_def)
  have b: "int_truediv 3 (PFloat (Finite 2)) = Inr (Finite (3 / 2))"
    using fl64_three_halves by (simp add: int_truediv_def float_of_small_int bind_def)
  have f: "\<lfloor>3 / 2 :: rat\<rfloor> = 1" by (rule floor_unique) simp_all
  have n: "num_tiles_per_ipu tm = PFloat (Finite 2)" by (simp add: tm_def)
  have 4: "ipu_ids_floor tm (Name ''cluster_0'') = Inr {0, 1}"
    using a b f
    by (simp add: ipu_ids_floor_def 3 n bind_def floor_ipu_of_tile_def as_int_def py_floor_def)
  from ipu_ids_is_floor_of_quotient [OF 1 2, of "Name ''cluster_0''"] 4
  have "ipu_ids tm (Name ''cluster_0'') = Inr {0, 1}" by simp
  with 2 show ?thesis unfolding tm_def by simp
qed

text \<open>
  C9, as stated, fails for a negative \<^verbatim>\<open>num_tiles_per_ipu\<close>: \<^verbatim>\<open>int\<close> truncates towards
  zero, so with the tile id 1 and \<open>-2\<close> tiles per IPU the quotient \<open>-0.5\<close> gives the
  IPU id 0, where the floor is \<open>-1\<close>.
\<close>

theorem ipu_ids_truncates_negative_quotient:
  "nonneg_tile_ids
     \<lparr>num_tiles_per_ipu = PFloat (Finite (- 2)),
      mappings = [(''cluster_0'',
        [\<lparr>inst = JInt 7, index = JInt 0, shape = JArray [JInt 8], dtype = JString ''float'',
          has_constant = False, has_aliases = False, num_elements = JInt 8,
          tiles = [\<lparr>tile = JInt 1, tile_num_elements = JInt 8\<rparr>]\<rparr>])]\<rparr>
   \<and> tile_ids
     \<lparr>num_tiles_per_ipu = PFloat (Finite (- 2)),
      mappings = [(''cluster_0'',
        [\<lparr>inst = JInt 7, index = JInt 0, shape = JArray [JInt 8], dtype = JString ''float'',
          has_constant = False, has_aliases = False, num_elements = JInt 8,
          tiles = [\<lparr>tile = JInt 1, tile_num_elements = JInt 8\<rparr>]\<rparr>])]\<rparr> NoComputation
     = Inr [JInt 1]
   \<and> int_truediv 1 (PFloat (Finite (- 2))) = Inr (Finite (- (1 / 2)))
   \<and> ipu_ids
     \<lparr>num_tiles_per_ipu = PFloat (Finite (- 2)),
      mappings = [(''cluster_0'',
        [\<lparr>inst = JInt 7, index = JInt 0, shape = JArray [JInt 8], dtype = JString ''float'',
          has_constant = False, has_aliases = False, num_elements = JInt 8,
          tiles = [\<lparr>tile = JInt 1, tile_num_elements = JInt 8\<rparr>]\<rparr>])]\<rparr> NoComputation
     = Inr {0}
   \<and> ipu_ids_floor
     \<lparr>num_tiles_per_ipu = PFloat (Finite (- 2)),
      mappings = [(''cluster_0'',
        [\<lparr>inst = JInt 7, index = JInt 0, shape = JArray [JInt 8], dtype = JString ''float'',
          has_constant = False, has_aliases = False, num_elements = JInt 8,
          tiles = [\<lparr>tile = JInt 1, tile_num_elements = JInt 8\<rparr>]\<rparr>])]\<rparr> NoComputation
     = Inr {- 1}"
proof -
  define tm where "tm = \<lparr>num_tiles_per_ipu = PFloat (Finite (- 2)),
      mappings = [(''cluster_0'',
        [\<lparr>inst = JInt 7, index = JInt 0, shape = JArray [JInt 8], dtype = JString ''float'',
          has_constant = False, has_aliases = False, num_elements = JInt 8,
          tiles = [\<lparr>tile = JInt 1, tile_num_elements = JInt 8\<rparr>]\<rparr>])]\<rparr>"
  have 1: "nonneg_tile_ids tm" by (simp add: tm_def nonneg_tile_ids_def)
  have 2: "tile_ids tm NoComputation = Inr [JInt 1]"
    by (simp add: tm_def tile_ids_def computation_names_def mappings_getitem_def bind_def
        Tensor_tile_ids_def set_add_def py_hashable_def)
  have 3: "int_truediv 1 (PFloat (Finite (- 2))) = Inr (Finite (- (1 / 2)))"
    using fl64_minus_half by (simp add: int_truediv_def float_of_small_int bind_def)
  have c: "\<lceil>- (1 / 2) :: rat\<rceil> = 0" by (rule ceiling_unique) simp_all
  have f: "\<lfloor>- (1 / 2) :: rat\<rfloor> = - 1" by (rule floor_unique) simp_all
  have n: "num_tiles_per_ipu tm = PFloat (Finite (- 2))" by (simp add: tm_def)
  have 4: "ipu_ids tm NoComputation = Inr {0}"
    using 3 c by (simp add: ipu_ids_def 2 n bind_def ipu_of_tile_def as_int_def py_int_def)
  have 5: "ipu_ids_floor tm NoComputation = Inr {- 1}"
    using 3 f
    by (simp add: ipu_ids_floor_def 2 n bind_def floor_ipu_of_tile_def as_int_def py_floor_def)
  from 1 2 3 4 5 show ?thesis unfolding tm_def by blast
qed


section \<open>Worked examples of the report decoder\<close>

theorem duplicate_singleton_payload_asserts_witness:
  "parse_events
     \<lparr>FromString = (\<lambda>r. Inr ((no_event HOST_TO_DEVICE_TRANSFER)\<lparr>data_transfer_data_transfer := ''{}''\<rparr>)),
      loads = (\<lambda>p. Inr (JObject []))\<rparr>
     None [''first'', ''second''] (Some 2) ''two transfers''
   = (Inl AssertionError,
      Some \<lparr>events = [HOST_TO_DEVICE_TRANSFER \<mapsto> JObject []], tensor_map = None,
            instruction_info = JObject []\<rparr>)"
proof -
  define evt where "evt = (no_event HOST_TO_DEVICE_TRANSFER)\<lparr>data_transfer_data_transfer := ''{}''\<rparr>"
  define ext where "ext = \<lparr>FromString = (\<lambda>r::string. (Inr evt :: py_error + IpuTraceEvent)),
      loads = (\<lambda>p::string. (Inr (JObject []) :: py_error + json))\<rparr>"
  define s where "s = \<lparr>events = [HOST_TO_DEVICE_TRANSFER \<mapsto> JObject []], tensor_map = None,
            instruction_info = JObject []\<rparr>"
  have 1: "parse_loop ext fresh [''first''] = (None, s, [HOST_TO_DEVICE_TRANSFER \<mapsto> 1])"
    by (simp add: ext_def evt_def s_def fresh_def parse_event_def try_body_def transfer_body_def
        no_event_def count_type_def)
  have 2: "FromString ext ''second'' = Inr evt" by (simp add: ext_def)
  have 3: "type evt \<in> {COMPILE_END, HOST_TO_DEVICE_TRANSFER, DEVICE_TO_HOST_TRANSFER}"
    by (simp add: evt_def no_event_def)
  have 4: "first_payload evt \<noteq> []" by (simp add: evt_def no_event_def first_payload_def)
  have 5: "type evt \<in> dom (events s)" by (simp add: evt_def no_event_def s_def)
  from duplicate_singleton_payload_asserts [OF 1 2 3 4 5, of "Some 2" "[]" None "''two transfers''"]
  show ?thesis by (simp add: ext_def evt_def s_def)
qed

theorem unicode_error_skips_event_witness:
  "parse_events
     \<lparr>FromString = lookup_or
        [(''bad'', Inr ((no_event EXECUTE)\<lparr>execute_execution_report := [CHR 0xFF]\<rparr>)),
         (''good'', Inr ((no_event EXECUTE)\<lparr>execute_execution_report := ''null''\<rparr>))]
        (Inl DecodeError),
      loads = lookup_or [([CHR 0xFF], Inl UnicodeDecodeError), (''null'', Inr JNull)] (Inl ValueError)\<rparr>
     None [''good'', ''bad'', ''good''] None []
   = (Inr [EXECUTE \<mapsto> 3],
      Some \<lparr>events = [EXECUTE \<mapsto> JArray [JNull, JNull]], tensor_map = None,
            instruction_info = JObject []\<rparr>)"
proof -
  define bad where "bad = (no_event EXECUTE)\<lparr>execute_execution_report := [CHR 0xFF]\<rparr>"
  define good where "good = (no_event EXECUTE)\<lparr>execute_execution_report := ''null''\<rparr>"
  define ext where "ext = \<lparr>FromString = lookup_or [(''bad'', Inr bad), (''good'', Inr good)]
        (Inl DecodeError :: py_error + IpuTraceEvent),
      loads = lookup_or [([CHR 0xFF], Inl UnicodeDecodeError), (''null'', Inr JNull)]
        (Inl ValueError :: py_error + json)\<rparr>"
  define s where "s = \<lparr>events = [EXECUTE \<mapsto> JArray [JNull]], tensor_map = None,
            instruction_info = JObject []\<rparr>"
  have 1: "parse_loop ext fresh [''good''] = (None, s, [EXECUTE \<mapsto> 1])"
    by (simp add: ext_def good_def s_def fresh_def parse_event_def try_body_def execute_body_def
        no_event_def count_type_def lookup_or_def)
  have 2: "FromString ext ''bad'' = Inr bad" by (simp add: ext_def lookup_or_def)
  have 3: "first_payload bad \<noteq> [] \<and> loads ext (first_payload bad) = Inl UnicodeDecodeError
            \<and> (type bad \<notin> dom (events s) \<or> type bad = EXECUTE)"
    by (simp add: bad_def ext_def no_event_def first_payload_def lookup_or_def)
  have 4: "parse_loop ext (s, count_type [EXECUTE \<mapsto> 1] (type bad)) [''good'']
           = (None, \<lparr>events = [EXECUTE \<mapsto> JArray [JNull, JNull]], tensor_map = None,
            instruction_info = JObject []\<rparr>, [EXECUTE \<mapsto> 3])"
    by (simp add: ext_def good_def bad_def s_def parse_event_def try_body_def execute_body_def
        no_event_def count_type_def lookup_or_def eval_nat_numeral)
  from unicode_error_skips_event [OF 1 2, of None "[''good'']" "[]"] 3 4
  show ?thesis by (simp add: ext_def bad_def good_def)
qed

theorem parse_events_rebuilds_state_witness:
  "int (length [''record'']) = 1
   \<and> parse_events \<lparr>FromString = (\<lambda>r. Inr (no_event LOAD_ENGINE)), loads = (\<lambda>p. Inl ValueError)\<rparr>
        (Some \<lparr>events = [EXECUTE \<mapsto> JArray [JNull]], tensor_map = None, instruction_info = JNull\<rparr>)
        [''record''] (Some 1) []
     = parse_events \<lparr>FromString = (\<lambda>r. Inr (no_event LOAD_ENGINE)), loads = (\<lambda>p. Inl ValueError)\<rparr>
        None [''record''] (Some 1) []"
proof -
  have h: "\<forall>n. Some (1::int) = Some n \<longrightarrow> n = 0 \<or> n = int (length [''record''])" by simp
  from parse_events_rebuilds_state
    [of "\<lparr>FromString = (\<lambda>r. Inr (no_event LOAD_ENGINE)), loads = (\<lambda>p. Inl ValueError)\<rparr>"
        "Some \<lparr>events = [EXECUTE \<mapsto> JArray [JNull]], tensor_map = None, instruction_info = JNull\<rparr>"
        "[''record'']" "Some 1" "[]" None]
  have "parse_events \<lparr>FromString = (\<lambda>r. Inr (no_event LOAD_ENGINE)), loads = (\<lambda>p. Inl ValueError)\<rparr>
        (Some \<lparr>events = [EXECUTE \<mapsto> JArray [JNull]], tensor_map = None, instruction_info = JNull\<rparr>)
        [''record''] (Some 1) []
     = parse_events \<lparr>FromString = (\<lambda>r. Inr (no_event LOAD_ENGINE)), loads = (\<lambda>p. Inl ValueError)\<rparr>
        None [''record''] (Some 1) []"
    using h by blast
  then show ?thesis by simp
qed


end
